theory Spec2Isabelle
  imports Main
begin

section \<open>JavaScript values and strings\<close>

text \<open>
  The repository is TypeScript. Values whose static type is \<^verbatim>\<open>unknown\<close> (request and
  response bodies, payment payloads, the fields of a payload produced by a chain library)
  are modelled by \<open>jsval\<close>. \<open>JFunction\<close> and \<open>JBuiltin\<close> stand for function objects and
  for built-in objects such as \<^verbatim>\<open>Object.prototype\<close>, named by the property they are reached
  through. The payload of \<open>JNumber\<close> is never inspected by the code modelled here.
  Strings are \<open>string\<close>; the code only compares characters with the ASCII characters
  \<^verbatim>\<open>/\<close>, \<^verbatim>\<open>*\<close> and \<^verbatim>\<open>[\<close> and only cuts strings at positions it has found by such a
  comparison.
\<close>

datatype jsval =
    JUndefined
  | JNull
  | JBoolean bool
  | JNumber int
  | JString string
  | JArray "jsval list"
  | JObject "(string \<times> jsval) list"
  | JFunction string
  | JBuiltin string

text \<open>\<^verbatim>\<open>s.startsWith(p)\<close>\<close>

definition startsWith :: "string \<Rightarrow> string \<Rightarrow> bool" where
  "startsWith s p = (take (length p) s = p)"

text \<open>\<^verbatim>\<open>s.replace(/\/+$/, "")\<close>: the trailing run of slashes is removed.\<close>

definition stripTrailingSlashes :: "string \<Rightarrow> string" where
  "stripTrailingSlashes s = rev (dropWhile (\<lambda>c. c = CHR ''/'') (rev s))"

text \<open>
  \<^verbatim>\<open>s.search(/\/(\*|\[)/)\<close>: the index of the first slash that is followed by \<^verbatim>\<open>*\<close> or
  \<^verbatim>\<open>[\<close>, and \<open>-1\<close> when there is none.
\<close>

fun searchWildcard :: "string \<Rightarrow> int" where
  "searchWildcard [] = -1"
| "searchWildcard (c # cs) =
     (if c = CHR ''/'' \<and> (case cs of [] \<Rightarrow> False | d # _ \<Rightarrow> d = CHR ''*'' \<or> d = CHR ''['')
      then 0
      else (let r = searchWildcard cs in if r < 0 then -1 else r + 1))"

text \<open>\<^verbatim>\<open>s.lastIndexOf(c)\<close>: the greatest index holding \<open>c\<close>, and \<open>-1\<close> when there is none.\<close>

fun lastIndexOf :: "string \<Rightarrow> char \<Rightarrow> int" where
  "lastIndexOf [] c = -1"
| "lastIndexOf (d # ds) c =
     (let r = lastIndexOf ds c in if 0 \<le> r then r + 1 else if d = c then 0 else -1)"

text \<open>
  A JavaScript \<^verbatim>\<open>Set\<close> of strings keeps its elements in insertion order and ignores an
  element it already holds; \<^verbatim>\<open>Array.from\<close> lists them in that order. It is modelled by the
  list of its elements.
\<close>

definition setAdd :: "'a list \<Rightarrow> 'a \<Rightarrow> 'a list" where
  "setAdd s x = (if x \<in> set s then s else s @ [x])"

definition newSet :: "'a list \<Rightarrow> 'a list" where
  "newSet xs = foldl setAdd [] xs"

section \<open>Path candidates (src/elysia/middleware.ts)\<close>

definition normalizePathCandidate :: "string \<Rightarrow> string" where
  "normalizePathCandidate v = (if startsWith v ''/'' then v else ''/'' @ v)"

definition normalizePrefix :: "string \<Rightarrow> string" where
  "normalizePrefix v = (if v = ''/'' then [] else stripTrailingSlashes v)"

definition getStaticPrefix :: "string \<Rightarrow> string" where
  "getStaticPrefix routePath =
     (let match = searchWildcard routePath;
          staticPath = (if match = -1 then routePath else take (nat match) routePath);
          normalized = stripTrailingSlashes (normalizePathCandidate staticPath);
          lastSlash = lastIndexOf normalized CHR ''/''
      in if lastSlash \<le> 0 then [] else take (nat lastSlash) normalized)"

text \<open>The first loop of \<^verbatim>\<open>expandPathCandidates\<close>: the set of non-empty prefixes.\<close>

fun collectPrefixes :: "string list \<Rightarrow> string list \<Rightarrow> string list" where
  "collectPrefixes prefixes [] = prefixes"
| "collectPrefixes prefixes (pattern # patterns) =
     (if pattern = ''*'' then collectPrefixes prefixes patterns
      else (let prefix = normalizePrefix (getStaticPrefix pattern)
            in if prefix \<noteq> [] then collectPrefixes (setAdd prefixes prefix) patterns
               else collectPrefixes prefixes patterns))"

text \<open>
  The body of the inner loop: what one prefix and one base candidate add.
  \<^verbatim>\<open>candidate.slice(prefix.length) || "/"\<close> is the rest of the candidate, and \<^verbatim>\<open>"/"\<close> when
  that rest is the empty string.
\<close>

definition expandStep :: "string \<Rightarrow> string list \<Rightarrow> string \<Rightarrow> string list" where
  "expandStep prefix candidates candidate =
     (let c1 = (if \<not> startsWith candidate prefix
                then setAdd candidates (normalizePathCandidate (prefix @ candidate))
                else candidates)
      in if startsWith candidate prefix
         then (let rest = drop (length prefix) candidate;
                   stripped = (if rest = [] then ''/'' else rest)
               in setAdd c1 (normalizePathCandidate stripped))
         else c1)"

fun expandPrefix :: "string \<Rightarrow> string list \<Rightarrow> string list \<Rightarrow> string list" where
  "expandPrefix prefix candidates [] = candidates"
| "expandPrefix prefix candidates (candidate # rest) =
     expandPrefix prefix (expandStep prefix candidates candidate) rest"

fun expandPrefixes :: "string list \<Rightarrow> string list \<Rightarrow> string list \<Rightarrow> string list" where
  "expandPrefixes [] baseCandidates candidates = candidates"
| "expandPrefixes (prefix # prefixes) baseCandidates candidates =
     expandPrefixes prefixes baseCandidates (expandPrefix prefix candidates baseCandidates)"

definition expandPathCandidates :: "string list \<Rightarrow> string list \<Rightarrow> string list" where
  "expandPathCandidates baseCandidates routePatterns =
     expandPrefixes (collectPrefixes [] routePatterns) baseCandidates (newSet baseCandidates)"

text \<open>
  The platform objects the middleware reads. \<open>URL\<close> is what the platform's URL parser
  returns: \<^verbatim>\<open>pathname\<close> and the entries of \<^verbatim>\<open>searchParams\<close> in their order of occurrence.
  The parser itself is a parameter \<open>newURL\<close> of the model (the raw string and the optional
  base it is resolved against). \<^verbatim>\<open>ctx.request\<close> is a Fetch \<^verbatim>\<open>Request\<close>: its \<^verbatim>\<open>url\<close> is a
  serialised URL, which the parser accepts, and \<^verbatim>\<open>headers.get\<close>, here \<open>req_headers\<close>,
  returns \<^verbatim>\<open>null\<close> (\<open>None\<close>) for a header that is absent. Header names and aliases are
  header names in the platform's sense.
\<close>

record URL =
  pathname :: string
  searchParams :: "(string \<times> string) list"

record Request =
  req_url :: string
  req_method :: string
  req_headers :: "string \<Rightarrow> string option"

type_synonym URLParser = "string \<Rightarrow> string option \<Rightarrow> URL"

definition resolveUrl :: "URLParser \<Rightarrow> Request \<Rightarrow> URL" where
  "resolveUrl newURL request =
     (if startsWith (req_url request) ''http://'' \<or> startsWith (req_url request) ''https://''
      then newURL (req_url request) None
      else newURL (req_url request) (Some ''http://localhost''))"

text \<open>
  The result of \<^verbatim>\<open>processHTTPRequest\<close>, the tagged union \<^verbatim>\<open>HTTPProcessResult\<close> of the
  protocol library, with the fields the middleware reads; \<^verbatim>\<open>TrackingResult\<close> of the
  repository's upto module and the result of \<^verbatim>\<open>processSettlement\<close> likewise.
\<close>

record HTTPResponseInstructions =
  resp_status :: int
  resp_headers :: "string \<rightharpoonup> string"
  resp_body :: jsval

record PaymentRequirements =
  scheme :: string
  network :: string

datatype HTTPProcessResult =
    NoPaymentRequired
  | PaymentVerified jsval PaymentRequirements
  | PaymentError HTTPResponseInstructions

datatype TrackingResult =
    TrackingSuccess string
  | TrackingFailure string string

datatype ProcessSettleResult =
    SettleSuccess "string \<rightharpoonup> string"
  | SettleFailure

record ElysiaPaymentState =
  result :: HTTPProcessResult
  tracking :: "TrackingResult option"

record ElysiaSet =
  set_status :: "int option"
  set_headers :: "(string \<rightharpoonup> string) option"

text \<open>
  The request context of the framework (\<^verbatim>\<open>ElysiaRequestContext\<close>, with the \<^verbatim>\<open>set\<close> object
  and the \<^verbatim>\<open>x402\<close> property the hooks write). \<open>ctx_path\<close> and \<open>ctx_route\<close> are \<open>None\<close>
  when the property is not a string.
\<close>

record ElysiaContext =
  ctx_request :: Request
  ctx_body :: jsval
  ctx_path :: "string option"
  ctx_route :: "string option"
  ctx_set :: ElysiaSet
  ctx_x402 :: "ElysiaPaymentState option"

definition mergeHeaders ::
  "(string \<rightharpoonup> string) option \<Rightarrow> (string \<rightharpoonup> string) \<Rightarrow> (string \<rightharpoonup> string)" where
  "mergeHeaders current next =
     (case current of None \<Rightarrow> Map.empty | Some c \<Rightarrow> c) ++ next"

definition getPathCandidates :: "URLParser \<Rightarrow> ElysiaContext \<Rightarrow> string \<Rightarrow> string list" where
  "getPathCandidates newURL ctx fallback =
     (let c0 = setAdd [] (normalizePathCandidate (pathname (resolveUrl newURL (ctx_request ctx))));
          c1 = setAdd c0 (normalizePathCandidate fallback);
          c2 = (case ctx_path ctx of
                  Some p \<Rightarrow> if 0 < length p then setAdd c1 (normalizePathCandidate p) else c1
                | None \<Rightarrow> c1);
          c3 = (case ctx_route ctx of
                  Some r \<Rightarrow> if 0 < length r then setAdd c2 (normalizePathCandidate r) else c2
                | None \<Rightarrow> c2)
      in c3)"

section \<open>The HTTP adapter (createAdapter)\<close>

text \<open>\<^verbatim>\<open>adapterPath\<close>, the value \<^verbatim>\<open>getPath\<close> returns.\<close>

definition adapterPath :: "URLParser \<Rightarrow> ElysiaContext \<Rightarrow> string" where
  "adapterPath newURL ctx =
     (case ctx_path ctx of
        Some p \<Rightarrow> if 0 < length p then normalizePathCandidate p
                  else pathname (resolveUrl newURL (ctx_request ctx))
      | None \<Rightarrow> pathname (resolveUrl newURL (ctx_request ctx)))"

text \<open>
  \<^verbatim>\<open>name.toLowerCase()\<close> on the ASCII letters. No character outside ASCII lowercases to
  a character of \<^verbatim>\<open>payment-signature\<close>, the only string the result is compared with.
\<close>

definition lowerChar :: "char \<Rightarrow> char" where
  "lowerChar c =
     (case map_of (zip ''ABCDEFGHIJKLMNOPQRSTUVWXYZ'' ''abcdefghijklmnopqrstuvwxyz'') c of
        Some l \<Rightarrow> l
      | None \<Rightarrow> c)"

definition toLowerCase :: "string \<Rightarrow> string" where
  "toLowerCase s = map lowerChar s"

definition DEFAULT_PAYMENT_HEADER_ALIASES :: "string list" where
  "DEFAULT_PAYMENT_HEADER_ALIASES = [''x-payment'']"

text \<open>The loop over the aliases in \<^verbatim>\<open>getHeader\<close>: the first alias whose header is present.\<close>

fun firstAliasValue :: "(string \<Rightarrow> string option) \<Rightarrow> string list \<Rightarrow> string option" where
  "firstAliasValue hdrs [] = None"
| "firstAliasValue hdrs (alias # rest) =
     (case hdrs alias of Some aliasValue \<Rightarrow> Some aliasValue | None \<Rightarrow> firstAliasValue hdrs rest)"

text \<open>\<^verbatim>\<open>adapter.getHeader(name)\<close>; \<^verbatim>\<open>undefined\<close> is \<open>None\<close>.\<close>

definition getHeader :: "ElysiaContext \<Rightarrow> string list \<Rightarrow> string \<Rightarrow> string option" where
  "getHeader ctx paymentHeaderAliases name =
     (case req_headers (ctx_request ctx) name of
        Some direct \<Rightarrow> Some direct
      | None \<Rightarrow>
          if toLowerCase name = ''payment-signature''
          then firstAliasValue (req_headers (ctx_request ctx)) paymentHeaderAliases
          else None)"

text \<open>
  \<^verbatim>\<open>queryParams\<close> is created as the object literal \<^verbatim>\<open>{}\<close>, so \<^verbatim>\<open>queryParams[key]\<close> reads an
  own property when there is one and otherwise the property that \<^verbatim>\<open>Object.prototype\<close>
  holds under that name. The own properties are a map. \<open>objectPrototypeFunctions\<close> are the
  function-valued properties of \<^verbatim>\<open>Object.prototype\<close> in ECMAScript; \<^verbatim>\<open>__proto__\<close> is its
  accessor property, which reads as the prototype object.
\<close>

definition objectPrototypeFunctions :: "string list" where
  "objectPrototypeFunctions =
     [''constructor'', ''hasOwnProperty'', ''isPrototypeOf'', ''propertyIsEnumerable'',
      ''toLocaleString'', ''toString'', ''valueOf'', ''__defineGetter__'',
      ''__defineSetter__'', ''__lookupGetter__'', ''__lookupSetter__'']"

definition inheritedProperty :: "string \<Rightarrow> jsval" where
  "inheritedProperty key =
     (if key = ''__proto__'' then JBuiltin ''Object.prototype''
      else if key \<in> set objectPrototypeFunctions then JFunction key
      else JUndefined)"

definition getProperty :: "(string \<rightharpoonup> jsval) \<Rightarrow> string \<Rightarrow> jsval" where
  "getProperty obj key = (case obj key of Some v \<Rightarrow> v | None \<Rightarrow> inheritedProperty key)"

text \<open>
  The loop over \<^verbatim>\<open>url.searchParams.entries()\<close>. An assignment to an inherited function
  property creates an own property. The assignment \<^verbatim>\<open>queryParams["__proto__"] = ...\<close>
  instead replaces the prototype of \<^verbatim>\<open>queryParams\<close>; what the object inherits from then on
  is not modelled, and the loop's model is \<open>None\<close> for a query string with that key.
\<close>

definition addQueryParam :: "(string \<rightharpoonup> jsval) \<Rightarrow> string \<Rightarrow> string \<Rightarrow> (string \<rightharpoonup> jsval)" where
  "addQueryParam queryParams key v =
     (let existing = getProperty queryParams key
      in if existing = JUndefined then queryParams(key \<mapsto> JString v)
         else (case existing of
                 JArray items \<Rightarrow> queryParams(key \<mapsto> JArray (items @ [JString v]))
               | _ \<Rightarrow> queryParams(key \<mapsto> JArray [existing, JString v])))"

fun queryParamsLoop ::
  "(string \<rightharpoonup> jsval) \<Rightarrow> (string \<times> string) list \<Rightarrow> (string \<rightharpoonup> jsval) option" where
  "queryParamsLoop queryParams [] = Some queryParams"
| "queryParamsLoop queryParams ((key, v) # entries) =
     (if key = ''__proto__'' then None
      else queryParamsLoop (addQueryParam queryParams key v) entries)"

definition getQueryParams :: "URLParser \<Rightarrow> ElysiaContext \<Rightarrow> (string \<rightharpoonup> jsval) option" where
  "getQueryParams newURL ctx =
     queryParamsLoop Map.empty (searchParams (resolveUrl newURL (ctx_request ctx)))"

text \<open>\<^verbatim>\<open>adapter.getQueryParam(name)\<close>, which returns \<^verbatim>\<open>queryParams[name]\<close>.\<close>

definition getQueryParam :: "URLParser \<Rightarrow> ElysiaContext \<Rightarrow> string \<Rightarrow> jsval option" where
  "getQueryParam newURL ctx name =
     map_option (\<lambda>queryParams. getProperty queryParams name) (getQueryParams newURL ctx)"

text \<open>
  For stating what \<^verbatim>\<open>getQueryParam\<close> returns: the values a key has in the query string, in
  their order of occurrence, and the value the adapter is meant to report for them (no
  value, the single string, or the array of the strings).
\<close>

definition queryValues :: "string \<Rightarrow> (string \<times> string) list \<Rightarrow> string list" where
  "queryValues key entries = map snd (filter (\<lambda>e. fst e = key) entries)"

definition reportedValue :: "string list \<Rightarrow> jsval" where
  "reportedValue vs =
     (case vs of [] \<Rightarrow> JUndefined | [v] \<Rightarrow> JString v | _ \<Rightarrow> JArray (map JString vs))"

section \<open>The two hooks (createElysiaPaymentMiddleware)\<close>

text \<open>
  What the middleware calls outside this file. \<open>HttpServer\<close> is the protocol library's
  \<^verbatim>\<open>x402HTTPResourceServer\<close> as one request sees it: \<open>processHTTPRequest\<close> takes the
  \<^verbatim>\<open>path\<close> and \<^verbatim>\<open>method\<close> of the request context the hook builds (the adapter and the
  paywall configuration are the same in every call of one request). \<open>UptoLib\<close> holds
  \<^verbatim>\<open>trackUptoPayment\<close> and the two tables of the upto module. The calls are taken to return.
\<close>

record HttpServer =
  processHTTPRequest :: "string \<Rightarrow> string \<Rightarrow> HTTPProcessResult"
  processSettlement :: "jsval \<Rightarrow> PaymentRequirements \<Rightarrow> ProcessSettleResult"

record 's UptoLib =
  trackUptoPayment :: "'s \<Rightarrow> jsval \<Rightarrow> PaymentRequirements \<Rightarrow> TrackingResult"
  TRACKING_ERROR_STATUS :: "string \<Rightarrow> int"
  TRACKING_ERROR_MESSAGES :: "string \<Rightarrow> string"

record 's UptoOptions =
  store :: 's
  autoTrack :: "bool option"

text \<open>The fields of \<^verbatim>\<open>ElysiaPaymentMiddlewareConfig\<close> that the hooks read.\<close>

record 's ElysiaPaymentMiddlewareConfig =
  paymentHeaderAliases :: "string list option"
  autoSettle :: "bool option"
  upto :: "'s UptoOptions option"

text \<open>
  The calls that the claims order in time are recorded as events: each hook returns the
  list of the calls it made, in the order it made them.
\<close>

datatype event =
    ProcessHTTPRequestCall string
  | TrackUptoPaymentCall jsval PaymentRequirements
  | RouteHandlerCall
  | ProcessSettlementCall jsval PaymentRequirements

definition resultType :: "HTTPProcessResult \<Rightarrow> string" where
  "resultType r =
     (case r of
        NoPaymentRequired \<Rightarrow> ''no-payment-required''
      | PaymentVerified _ _ \<Rightarrow> ''payment-verified''
      | PaymentError _ \<Rightarrow> ''payment-error'')"

definition configuredAliases :: "'s ElysiaPaymentMiddlewareConfig \<Rightarrow> string list" where
  "configuredAliases config =
     (case paymentHeaderAliases config of
        Some aliases \<Rightarrow> aliases
      | None \<Rightarrow> DEFAULT_PAYMENT_HEADER_ALIASES)"

definition configuredAutoSettle :: "'s ElysiaPaymentMiddlewareConfig \<Rightarrow> bool" where
  "configuredAutoSettle config = (case autoSettle config of Some b \<Rightarrow> b | None \<Rightarrow> True)"

definition configuredAutoTrack :: "'s ElysiaPaymentMiddlewareConfig \<Rightarrow> bool" where
  "configuredAutoTrack config =
     (case upto config of
        Some u \<Rightarrow> (case autoTrack u of Some b \<Rightarrow> b | None \<Rightarrow> True)
      | None \<Rightarrow> True)"

text \<open>
  \<^verbatim>\<open>getHeader\<close> of the adapter that \<^verbatim>\<open>onBeforeHandle\<close> creates with
  \<^verbatim>\<open>createAdapter(ctx, paymentHeaderAliases)\<close>.
\<close>

definition adapterGetHeader ::
  "'s ElysiaPaymentMiddlewareConfig \<Rightarrow> ElysiaContext \<Rightarrow> string \<Rightarrow> string option" where
  "adapterGetHeader config ctx name = getHeader ctx (configuredAliases config) name"

text \<open>The candidates of one request (\<^verbatim>\<open>pathCandidates\<close> in \<^verbatim>\<open>onBeforeHandle\<close>).\<close>

definition pathCandidates :: "URLParser \<Rightarrow> string list \<Rightarrow> ElysiaContext \<Rightarrow> string list" where
  "pathCandidates newURL routePatterns ctx =
     expandPathCandidates (getPathCandidates newURL ctx (adapterPath newURL ctx)) routePatterns"

text \<open>
  The loop over the candidates: \<open>res\<close> is the variable \<^verbatim>\<open>result\<close>, and the first component
  of the value lists the calls made.
\<close>

fun processLoop ::
  "HttpServer \<Rightarrow> string \<Rightarrow> HTTPProcessResult \<Rightarrow> string list \<Rightarrow> event list \<times> HTTPProcessResult" where
  "processLoop httpServer m res [] = ([], res)"
| "processLoop httpServer m res (candidate # rest) =
     (let attempt = processHTTPRequest httpServer candidate m
      in if resultType attempt \<noteq> ''no-payment-required''
         then ([ProcessHTTPRequestCall candidate], attempt)
         else (let (calls, final) = processLoop httpServer m attempt rest
               in (ProcessHTTPRequestCall candidate # calls, final)))"

record HookResult =
  hook_events :: "event list"
  hook_ctx :: ElysiaContext
  hook_return :: jsval

definition setHeaders :: "ElysiaContext \<Rightarrow> (string \<rightharpoonup> string) \<Rightarrow> ElysiaContext" where
  "setHeaders ctx next =
     ctx\<lparr>ctx_set := (ctx_set ctx)\<lparr>set_headers := Some (mergeHeaders (set_headers (ctx_set ctx)) next)\<rparr>\<rparr>"

definition setStatus :: "ElysiaContext \<Rightarrow> int \<Rightarrow> ElysiaContext" where
  "setStatus ctx s = ctx\<lparr>ctx_set := (ctx_set ctx)\<lparr>set_status := Some s\<rparr>\<rparr>"

text \<open>
  \<^verbatim>\<open>onBeforeHandle\<close>. \<open>hook_return\<close> is the value the hook returns, \<open>JUndefined\<close> when it
  runs to its end without a \<^verbatim>\<open>return\<close>.
\<close>

definition onBeforeHandle ::
  "URLParser \<Rightarrow> 's UptoLib \<Rightarrow> HttpServer \<Rightarrow> 's ElysiaPaymentMiddlewareConfig \<Rightarrow> string list
   \<Rightarrow> ElysiaContext \<Rightarrow> HookResult" where
  "onBeforeHandle newURL lib httpServer config routePatterns ctx =
     (let (calls, res) =
            processLoop httpServer (req_method (ctx_request ctx)) NoPaymentRequired
              (pathCandidates newURL routePatterns ctx);
          ctx1 = ctx\<lparr>ctx_x402 := Some \<lparr>result = res, tracking = None\<rparr>\<rparr>
      in case res of
           PaymentError response \<Rightarrow>
             \<lparr>hook_events = calls,
              hook_ctx = setHeaders (setStatus ctx1 (resp_status response)) (resp_headers response),
              hook_return = resp_body response\<rparr>
         | PaymentVerified paymentPayload paymentRequirements \<Rightarrow>
             (case upto config of
                Some u \<Rightarrow>
                  if scheme paymentRequirements = ''upto'' \<and> configuredAutoTrack config
                  then (let tr = trackUptoPayment lib (store u) paymentPayload paymentRequirements;
                            ctx2 = ctx1\<lparr>ctx_x402 := Some \<lparr>result = res, tracking = Some tr\<rparr>\<rparr>;
                            events = calls @ [TrackUptoPaymentCall paymentPayload paymentRequirements]
                        in case tr of
                             TrackingFailure err sessionId \<Rightarrow>
                               \<lparr>hook_events = events,
                                hook_ctx =
                                  setHeaders (setStatus ctx2 (TRACKING_ERROR_STATUS lib err))
                                    [''content-type'' \<mapsto> ''application/json''],
                                hook_return =
                                  JObject [(''error'', JString err),
                                           (''message'', JString (TRACKING_ERROR_MESSAGES lib err)),
                                           (''sessionId'', JString sessionId)]\<rparr>
                           | TrackingSuccess sessionId \<Rightarrow>
                               \<lparr>hook_events = events,
                                hook_ctx = setHeaders ctx2 [''x-upto-session-id'' \<mapsto> sessionId],
                                hook_return = JUndefined\<rparr>)
                  else \<lparr>hook_events = calls, hook_ctx = ctx1, hook_return = JUndefined\<rparr>
              | None \<Rightarrow> \<lparr>hook_events = calls, hook_ctx = ctx1, hook_return = JUndefined\<rparr>)
         | NoPaymentRequired \<Rightarrow>
             \<lparr>hook_events = calls, hook_ctx = ctx1, hook_return = JUndefined\<rparr>)"

text \<open>\<^verbatim>\<open>onAfterHandle\<close>, which returns nothing: the calls it made and the context it leaves.\<close>

definition onAfterHandle ::
  "HttpServer \<Rightarrow> 's ElysiaPaymentMiddlewareConfig \<Rightarrow> ElysiaContext \<Rightarrow> event list \<times> ElysiaContext" where
  "onAfterHandle httpServer config ctx =
     (case ctx_x402 ctx of
        None \<Rightarrow> ([], ctx)
      | Some state \<Rightarrow>
          (case result state of
             PaymentVerified paymentPayload paymentRequirements \<Rightarrow>
               if scheme paymentRequirements = ''upto''
               then (case tracking state of
                       Some (TrackingSuccess sessionId) \<Rightarrow>
                         ([], setHeaders ctx [''x-upto-session-id'' \<mapsto> sessionId])
                     | _ \<Rightarrow> ([], ctx))
               else if \<not> configuredAutoSettle config then ([], ctx)
               else (case processSettlement httpServer paymentPayload paymentRequirements of
                       SettleSuccess headers \<Rightarrow>
                         ([ProcessSettlementCall paymentPayload paymentRequirements],
                          setHeaders ctx headers)
                     | SettleFailure \<Rightarrow>
                         ([ProcessSettlementCall paymentPayload paymentRequirements], ctx))
           | _ \<Rightarrow> ([], ctx)))"

text \<open>
  The framework's lifecycle for one request, as far as the two global hooks are
  concerned: the \<^verbatim>\<open>onBeforeHandle\<close> hook runs first; when it returns a value other than
  \<^verbatim>\<open>undefined\<close> and \<^verbatim>\<open>null\<close>, that value is the response and the route handler is
  skipped; a return of \<^verbatim>\<open>undefined\<close> or \<^verbatim>\<open>null\<close> does not end the request, and the route
  handler runs and produces the response; the \<^verbatim>\<open>onAfterHandle\<close> hook runs last. The route
  handler is a parameter.
\<close>

record Outcome =
  out_events :: "event list"
  out_ctx :: ElysiaContext
  out_response :: jsval

definition handleRequest ::
  "URLParser \<Rightarrow> 's UptoLib \<Rightarrow> HttpServer \<Rightarrow> 's ElysiaPaymentMiddlewareConfig \<Rightarrow> string list
   \<Rightarrow> (ElysiaContext \<Rightarrow> ElysiaContext \<times> jsval) \<Rightarrow> ElysiaContext \<Rightarrow> Outcome" where
  "handleRequest newURL lib httpServer config routePatterns routeHandler ctx =
     (let before = onBeforeHandle newURL lib httpServer config routePatterns ctx
      in if hook_return before \<noteq> JUndefined \<and> hook_return before \<noteq> JNull
         then (let (after, ctx2) = onAfterHandle httpServer config (hook_ctx before)
               in \<lparr>out_events = hook_events before @ after,
                   out_ctx = ctx2,
                   out_response = hook_return before\<rparr>)
         else (let (ctx1, response) = routeHandler (hook_ctx before);
                   (after, ctx2) = onAfterHandle httpServer config ctx1
               in \<lparr>out_events = hook_events before @ [RouteHandlerCall] @ after,
                   out_ctx = ctx2,
                   out_response = response\<rparr>))"

text \<open>The candidates of the \<^verbatim>\<open>processHTTPRequest\<close> calls among some events, in order.\<close>

fun processCalls :: "event list \<Rightarrow> string list" where
  "processCalls [] = []"
| "processCalls (ProcessHTTPRequestCall candidate # events) = candidate # processCalls events"
| "processCalls (_ # events) = processCalls events"

text \<open>The events of a request before the route handler ran, and those from it on.\<close>

definition preHandler :: "event list \<Rightarrow> event list" where
  "preHandler events = takeWhile (\<lambda>e. e \<noteq> RouteHandlerCall) events"

definition fromHandler :: "event list \<Rightarrow> event list" where
  "fromHandler events = dropWhile (\<lambda>e. e \<noteq> RouteHandlerCall) events"

section \<open>The Starknet client scheme (src/starknet/exact/client.ts)\<close>

text \<open>
  A thrown value is either an \<^verbatim>\<open>Error\<close> this file creates, with its message, or whatever a
  call into the chain library threw.
\<close>

datatype 'e thrown =
    Error string
  | LibraryThrew 'e

text \<open>\<^verbatim>\<open>typeof v\<close> and \<^verbatim>\<open>Array.isArray(v)\<close>.\<close>

definition typeof :: "jsval \<Rightarrow> string" where
  "typeof v =
     (case v of
        JUndefined \<Rightarrow> ''undefined''
      | JNull \<Rightarrow> ''object''
      | JBoolean _ \<Rightarrow> ''boolean''
      | JNumber _ \<Rightarrow> ''number''
      | JString _ \<Rightarrow> ''string''
      | JArray _ \<Rightarrow> ''object''
      | JObject _ \<Rightarrow> ''object''
      | JFunction _ \<Rightarrow> ''function''
      | JBuiltin _ \<Rightarrow> ''object'')"

definition isArray :: "jsval \<Rightarrow> bool" where
  "isArray v = (case v of JArray _ \<Rightarrow> True | _ \<Rightarrow> False)"

text \<open>
  The override of the configuration, \<^verbatim>\<open>string | Partial<Record<StarknetNetworkId, string>>\<close>;
  the network identifiers are a type parameter.
\<close>

datatype 'n paymasterOverride =
    AllNetworks string
  | PerNetwork "'n \<rightharpoonup> string"

record 'n PaymasterOptions =
  opt_endpoint :: string
  opt_network :: 'n
  opt_apiKey :: "string option"

text \<open>
  The chain library (\<^verbatim>\<open>x402-starknet\<close>): \<^verbatim>\<open>validateNetwork\<close>, its \<^verbatim>\<open>createPaymentPayload\<close>
  (here \<open>buildPaymentPayload\<close>, since the method of the class below has the same name),
  which returns an object, and the table \<^verbatim>\<open>DEFAULT_PAYMASTER_ENDPOINTS\<close>.
\<close>

record ('a, 'n, 'e) StarknetLib =
  validateNetwork :: "string \<Rightarrow> 'e + 'n"
  buildPaymentPayload ::
    "'a \<Rightarrow> int \<Rightarrow> PaymentRequirements \<Rightarrow> 'n PaymasterOptions \<Rightarrow> 'e + (string \<rightharpoonup> jsval)"
  DEFAULT_PAYMASTER_ENDPOINTS :: "'n \<Rightarrow> string"

record ('a, 'n) ExactStarknetClientScheme =
  account :: 'a
  cfg_paymasterEndpoint :: "'n paymasterOverride option"
  cfg_paymasterApiKey :: "'n paymasterOverride option"

record StarknetPaymentPayload =
  x402Version :: int
  payload :: jsval
  typedData :: jsval
  paymasterEndpoint :: jsval

definition missingTypedData :: string where
  "missingTypedData = ''Starknet payment payload missing typedData (required).''"

definition assertStarknetTypedData :: "(string \<rightharpoonup> jsval) \<Rightarrow> 'e thrown + unit" where
  "assertStarknetTypedData p =
     (let td = getProperty p ''typedData'';
          isObject = (typeof td = ''object'' \<and> td \<noteq> JNull \<and> \<not> isArray td)
      in if \<not> isObject then Inl (Error missingTypedData) else Inr ())"

definition resolvePaymasterEndpoint ::
  "('n \<Rightarrow> string) \<Rightarrow> 'n \<Rightarrow> 'n paymasterOverride option \<Rightarrow> string" where
  "resolvePaymasterEndpoint defaults n override =
     (case override of
        Some (AllNetworks s) \<Rightarrow> s
      | Some (PerNetwork m) \<Rightarrow>
          (case m n of
             Some e \<Rightarrow> if e \<noteq> [] then e else defaults n
           | None \<Rightarrow> defaults n)
      | None \<Rightarrow> defaults n)"

definition resolvePaymasterApiKey :: "'n \<Rightarrow> 'n paymasterOverride option \<Rightarrow> string option" where
  "resolvePaymasterApiKey n override =
     (case override of
        Some (AllNetworks s) \<Rightarrow> Some s
      | Some (PerNetwork m) \<Rightarrow> m n
      | None \<Rightarrow> None)"

text \<open>
  The method \<^verbatim>\<open>createPaymentPayload\<close> of the class. \<^verbatim>\<open>a ?? b\<close> is \<open>b\<close> when \<open>a\<close> is \<^verbatim>\<open>null\<close>
  or \<^verbatim>\<open>undefined\<close>; the \<^verbatim>\<open>apiKey\<close> option is passed only when the key is a non-empty string.
\<close>

definition paymasterOptions ::
  "('a, 'n, 'e) StarknetLib \<Rightarrow> ('a, 'n) ExactStarknetClientScheme \<Rightarrow> 'n \<Rightarrow> 'n PaymasterOptions" where
  "paymasterOptions lib this n =
     (let endpoint =
            resolvePaymasterEndpoint (DEFAULT_PAYMASTER_ENDPOINTS lib) n (cfg_paymasterEndpoint this);
          apiKey = resolvePaymasterApiKey n (cfg_paymasterApiKey this)
      in \<lparr>opt_endpoint = endpoint, opt_network = n,
          opt_apiKey = (case apiKey of
                          Some k \<Rightarrow> if k \<noteq> [] then Some k else None
                        | None \<Rightarrow> None)\<rparr>)"

definition createPaymentPayload ::
  "('a, 'n, 'e) StarknetLib \<Rightarrow> ('a, 'n) ExactStarknetClientScheme \<Rightarrow> int \<Rightarrow> PaymentRequirements
   \<Rightarrow> 'e thrown + StarknetPaymentPayload" where
  "createPaymentPayload lib this version requirements =
     (case validateNetwork lib (network requirements) of
        Inl e \<Rightarrow> Inl (LibraryThrew e)
      | Inr n \<Rightarrow>
          (let options = paymasterOptions lib this n
           in case buildPaymentPayload lib (account this) version requirements options of
                Inl e \<Rightarrow> Inl (LibraryThrew e)
              | Inr paymentPayload \<Rightarrow>
                  (case assertStarknetTypedData paymentPayload of
                     Inl err \<Rightarrow> Inl err
                   | Inr _ \<Rightarrow>
                       Inr \<lparr>x402Version = version,
                            payload = getProperty paymentPayload ''payload'',
                            typedData = getProperty paymentPayload ''typedData'',
                            paymasterEndpoint =
                              (let pe = getProperty paymentPayload ''paymasterEndpoint''
                               in if pe = JNull \<or> pe = JUndefined
                                  then JString (opt_endpoint options) else pe)\<rparr>)))"

section \<open>Example requests\<close>

text \<open>
  Concrete inputs on which the theorems below are instantiated. \<open>exampleParser\<close> gives, for
  the URLs listed, the \<^verbatim>\<open>pathname\<close> and the \<^verbatim>\<open>searchParams\<close> entries the platform's parser
  gives for them.
\<close>

definition exampleURLs :: "(string \<times> URL) list" where
  "exampleURLs =
     [(''http://localhost/api'', \<lparr>pathname = ''/api'', searchParams = []\<rparr>),
      (''http://localhost/api/premium'', \<lparr>pathname = ''/api/premium'', searchParams = []\<rparr>),
      (''http://localhost/premium'', \<lparr>pathname = ''/premium'', searchParams = []\<rparr>),
      (''http://localhost/search?tag=a&q=x&tag=b'',
         \<lparr>pathname = ''/search'', searchParams = [(''tag'', ''a''), (''q'', ''x''), (''tag'', ''b'')]\<rparr>),
      (''http://localhost/search?toString=1'',
         \<lparr>pathname = ''/search'', searchParams = [(''toString'', ''1'')]\<rparr>)]"

definition exampleParser :: URLParser where
  "exampleParser raw base =
     (case map_of exampleURLs raw of
        Some u \<Rightarrow> u
      | None \<Rightarrow> \<lparr>pathname = ''/'', searchParams = []\<rparr>)"

definition exampleRequest :: "string \<Rightarrow> (string \<rightharpoonup> string) \<Rightarrow> Request" where
  "exampleRequest u hdrs = \<lparr>req_url = u, req_method = ''GET'', req_headers = hdrs\<rparr>"

definition exampleCtx :: "string \<Rightarrow> string \<Rightarrow> ElysiaContext" where
  "exampleCtx u p =
     \<lparr>ctx_request = exampleRequest u Map.empty,
      ctx_body = JUndefined,
      ctx_path = Some p,
      ctx_route = Some p,
      ctx_set = \<lparr>set_status = Some 200, set_headers = Some Map.empty\<rparr>,
      ctx_x402 = None\<rparr>"

text \<open>
  A server that answers \<open>r\<close> for the path \<^verbatim>\<open>/api/premium\<close> and \<^verbatim>\<open>no-payment-required\<close> for
  every other path, and that settles every payment; an upto module that accepts every
  payment into one session; a configuration with upto tracking and the defaults; a route
  handler that leaves the context as it is.
\<close>

definition uptoRequirements :: PaymentRequirements where
  "uptoRequirements = \<lparr>scheme = ''upto'', network = ''eip155:8453''\<rparr>"

definition exactRequirements :: PaymentRequirements where
  "exactRequirements = \<lparr>scheme = ''exact'', network = ''eip155:8453''\<rparr>"

definition exampleServer :: "HTTPProcessResult \<Rightarrow> HttpServer" where
  "exampleServer r =
     \<lparr>processHTTPRequest = (\<lambda>p m. if p = ''/api/premium'' then r else NoPaymentRequired),
      processSettlement = (\<lambda>p r. SettleSuccess [''payment-response'' \<mapsto> ''settled''])\<rparr>"

definition exampleLib :: "unit UptoLib" where
  "exampleLib =
     \<lparr>trackUptoPayment = (\<lambda>s p r. TrackingSuccess ''session-1''),
      TRACKING_ERROR_STATUS = (\<lambda>e. 402),
      TRACKING_ERROR_MESSAGES = (\<lambda>e. e)\<rparr>"

definition exampleConfig :: "unit ElysiaPaymentMiddlewareConfig" where
  "exampleConfig =
     \<lparr>paymentHeaderAliases = None, autoSettle = None,
      upto = Some \<lparr>store = (), autoTrack = None\<rparr>\<rparr>"

definition exampleHandler :: "ElysiaContext \<Rightarrow> ElysiaContext \<times> jsval" where
  "exampleHandler ctx = (ctx, JString ''premium content'')"

text \<open>A context as the route handler leaves it after a verified exact payment.\<close>

definition exampleVerifiedCtx :: ElysiaContext where
  "exampleVerifiedCtx =
     (exampleCtx ''http://localhost/api/premium'' ''/api/premium'')
       \<lparr>ctx_x402 := Some \<lparr>result = PaymentVerified (JString ''signed'') exactRequirements,
                            tracking = None\<rparr>\<rparr>"

text \<open>A \<^verbatim>\<open>payment-error\<close> result whose response has no body.\<close>

definition bodylessError :: HTTPProcessResult where
  "bodylessError =
     PaymentError \<lparr>resp_status = 402, resp_headers = [''content-type'' \<mapsto> ''text/plain''],
                   resp_body = JUndefined\<rparr>"

text \<open>A request that carries the payment in the header \<^verbatim>\<open>x-payment\<close>.\<close>

definition exampleHeaderCtx :: ElysiaContext where
  "exampleHeaderCtx =
     (exampleCtx ''http://localhost/api/premium'' ''/api/premium'')
       \<lparr>ctx_request :=
          exampleRequest ''http://localhost/api/premium'' [''x-payment'' \<mapsto> ''signed'']\<rparr>"

text \<open>
  A chain library for two networks, whose payloads carry the typed data \<open>td\<close>, and a client
  scheme without overrides.
\<close>

definition exampleStarknetLib :: "jsval \<Rightarrow> (unit, string, string) StarknetLib" where
  "exampleStarknetLib td =
     \<lparr>validateNetwork =
        (\<lambda>s. if s = ''starknet:mainnet'' \<or> s = ''starknet:sepolia'' then Inr s
             else Inl ''unsupported network''),
      buildPaymentPayload =
        (\<lambda>a v r options.
           Inr [''x402Version'' \<mapsto> JNumber v,
                ''payload'' \<mapsto> JObject [(''signature'', JArray [])],
                ''typedData'' \<mapsto> td]),
      DEFAULT_PAYMASTER_ENDPOINTS =
        (\<lambda>n. if n = ''starknet:mainnet'' then ''https://starknet.paymaster.avnu.fi''
             else ''https://sepolia.paymaster.avnu.fi'')\<rparr>"

definition exampleScheme :: "string paymasterOverride option \<Rightarrow> (unit, string) ExactStarknetClientScheme" where
  "exampleScheme override =
     \<lparr>account = (), cfg_paymasterEndpoint = override, cfg_paymasterApiKey = None\<rparr>"

definition starknetRequirements :: PaymentRequirements where
  "starknetRequirements = \<lparr>scheme = ''exact'', network = ''starknet:sepolia''\<rparr>"

section \<open>Properties of the path candidates\<close>

lemma set_setAdd: "set (setAdd s x) = insert x (set s)"
  by (auto simp: setAdd_def)

lemma set_foldl_setAdd: "set (foldl setAdd acc xs) = set acc \<union> set xs"
  by (induction xs arbitrary: acc) (auto simp: set_setAdd)

lemma set_newSet: "set (newSet xs) = set xs"
  by (simp add: newSet_def set_foldl_setAdd)

lemma startsWith_normalize: "startsWith (normalizePathCandidate v) ''/''"
  by (simp add: normalizePathCandidate_def startsWith_def)

lemma normalize_started: "startsWith v ''/'' \<Longrightarrow> normalizePathCandidate v = v"
  by (simp add: normalizePathCandidate_def)

lemma startsWith_slash_iff: "startsWith v ''/'' \<longleftrightarrow> (\<exists>w. v = CHR ''/'' # w)"
  by (cases v) (auto simp: startsWith_def)

lemma startsWith_empty: "startsWith v []"
  by (simp add: startsWith_def)

lemma stripTrailingSlashes_shape:
  "stripTrailingSlashes v = [] \<or> hd (stripTrailingSlashes v) = hd v"
proof -
  have "\<exists>zs. v = stripTrailingSlashes v @ zs"
  proof -
    have "rev v = takeWhile (\<lambda>c. c = CHR ''/'') (rev v) @ dropWhile (\<lambda>c. c = CHR ''/'') (rev v)"
      by simp
    then have "v = rev (dropWhile (\<lambda>c. c = CHR ''/'') (rev v)) @ rev (takeWhile (\<lambda>c. c = CHR ''/'') (rev v))"
      by (metis rev_append rev_rev_ident)
    then show ?thesis unfolding stripTrailingSlashes_def by blast
  qed
  then obtain zs where split: "v = stripTrailingSlashes v @ zs" ..
  show ?thesis
  proof (cases "stripTrailingSlashes v")
    case Nil
    then show ?thesis by simp
  next
    case (Cons a w)
    with split have "v = a # (w @ zs)" by simp
    then have "hd v = a" by simp
    with Cons show ?thesis by simp
  qed
qed

lemma getStaticPrefix_shape:
  "getStaticPrefix p = [] \<or> startsWith (getStaticPrefix p) ''/''"
proof -
  define staticPath where
    "staticPath = (if searchWildcard p = -1 then p else take (nat (searchWildcard p)) p)"
  define normalized where "normalized = stripTrailingSlashes (normalizePathCandidate staticPath)"
  define lastSlash where "lastSlash = lastIndexOf normalized CHR ''/''"
  have gsp: "getStaticPrefix p = (if lastSlash \<le> 0 then [] else take (nat lastSlash) normalized)"
    by (simp add: getStaticPrefix_def Let_def staticPath_def normalized_def lastSlash_def)
  show ?thesis
  proof (cases "lastSlash \<le> 0")
    case True
    then show ?thesis by (simp add: gsp)
  next
    case False
    have "normalized = [] \<or> hd normalized = CHR ''/''"
      using stripTrailingSlashes_shape [of "normalizePathCandidate staticPath"]
        startsWith_normalize [of staticPath]
      by (auto simp: normalized_def startsWith_slash_iff)
    moreover have "normalized \<noteq> []"
      using False by (auto simp: lastSlash_def)
    ultimately obtain w where "normalized = CHR ''/'' # w"
      by (cases normalized) auto
    moreover from False obtain k where "nat lastSlash = Suc k"
      by (cases "nat lastSlash") auto
    ultimately show ?thesis
      using False by (simp add: gsp startsWith_def)
  qed
qed

lemma normalizePrefix_shape:
  "normalizePrefix (getStaticPrefix p) = [] \<or> startsWith (normalizePrefix (getStaticPrefix p)) ''/''"
proof -
  let ?g = "getStaticPrefix p"
  show ?thesis
  proof (cases "?g = ''/''")
    case True
    then show ?thesis by (simp add: normalizePrefix_def)
  next
    case False
    then have np: "normalizePrefix ?g = stripTrailingSlashes ?g"
      by (simp add: normalizePrefix_def)
    show ?thesis
    proof (cases "stripTrailingSlashes ?g = []")
      case True
      then show ?thesis by (simp add: np)
    next
      case nonempty: False
      then have "?g \<noteq> []" by (auto simp: stripTrailingSlashes_def)
      then have "hd ?g = CHR ''/''"
        using getStaticPrefix_shape [of p] by (auto simp: startsWith_slash_iff)
      then have "hd (stripTrailingSlashes ?g) = CHR ''/''"
        using stripTrailingSlashes_shape [of ?g] nonempty by auto
      then show ?thesis
        using nonempty by (cases "stripTrailingSlashes ?g") (auto simp: np startsWith_def)
    qed
  qed
qed

lemma star_prefix: "normalizePrefix (getStaticPrefix ''*'') = []"
  by (simp add: getStaticPrefix_def normalizePrefix_def normalizePathCandidate_def
      startsWith_def stripTrailingSlashes_def)

lemma expandStep_mono: "set candidates \<subseteq> set (expandStep prefix candidates c)"
  by (auto simp: expandStep_def Let_def set_setAdd)

lemma expandPrefix_mono: "set candidates \<subseteq> set (expandPrefix prefix candidates base)"
proof (induction base arbitrary: candidates)
  case Nil
  then show ?case by simp
next
  case (Cons c base)
  have "set candidates \<subseteq> set (expandStep prefix candidates c)"
    by (rule expandStep_mono)
  also have "\<dots> \<subseteq> set (expandPrefix prefix (expandStep prefix candidates c) base)"
    by (rule Cons.IH)
  finally show ?case by simp
qed

lemma expandPrefixes_mono: "set candidates \<subseteq> set (expandPrefixes prefixes base candidates)"
proof (induction prefixes arbitrary: candidates)
  case Nil
  then show ?case by simp
next
  case (Cons p prefixes)
  have "set candidates \<subseteq> set (expandPrefix p candidates base)"
    by (rule expandPrefix_mono)
  also have "\<dots> \<subseteq> set (expandPrefixes prefixes base (expandPrefix p candidates base))"
    by (rule Cons.IH)
  finally show ?case by simp
qed

text \<open>What one prefix adds for one base candidate.\<close>

lemma expandStep_adds:
  "(\<not> startsWith c prefix \<longrightarrow>
      normalizePathCandidate (prefix @ c) \<in> set (expandStep prefix candidates c)) \<and>
   (startsWith c prefix \<longrightarrow>
      normalizePathCandidate (if drop (length prefix) c = [] then ''/'' else drop (length prefix) c)
        \<in> set (expandStep prefix candidates c))"
  by (simp add: expandStep_def Let_def set_setAdd)

lemma expandPrefix_adds:
  assumes "c \<in> set base"
  shows "set (expandStep prefix [] c) \<subseteq> set (expandPrefix prefix candidates base)"
  using assms
proof (induction base arbitrary: candidates)
  case Nil
  then show ?case by simp
next
  case (Cons b base)
  show ?case
  proof (cases "c = b")
    case True
    have "set (expandStep prefix [] c) \<subseteq> set (expandStep prefix candidates c)"
      by (auto simp: expandStep_def Let_def set_setAdd split: if_splits)
    also have "\<dots> \<subseteq> set (expandPrefix prefix (expandStep prefix candidates c) base)"
      by (rule expandPrefix_mono)
    finally show ?thesis using True by simp
  next
    case False
    with Cons.prems have "c \<in> set base" by simp
    then show ?thesis using Cons.IH by simp
  qed
qed

lemma expandPrefixes_adds:
  assumes "prefix \<in> set prefixes" and "c \<in> set base"
  shows "set (expandStep prefix [] c) \<subseteq> set (expandPrefixes prefixes base candidates)"
  using assms(1)
proof (induction prefixes arbitrary: candidates)
  case Nil
  then show ?case by simp
next
  case (Cons p prefixes)
  show ?case
  proof (cases "prefix = p")
    case True
    have "set (expandStep prefix [] c) \<subseteq> set (expandPrefix p candidates base)"
      using expandPrefix_adds [OF assms(2)] True by simp
    also have "\<dots> \<subseteq> set (expandPrefixes prefixes base (expandPrefix p candidates base))"
      by (rule expandPrefixes_mono)
    finally show ?thesis by simp
  next
    case False
    with Cons.prems have "prefix \<in> set prefixes" by simp
    then show ?thesis using Cons.IH by simp
  qed
qed

lemma set_collectPrefixes:
  "set (collectPrefixes prefixes patterns) =
     set prefixes \<union>
     {normalizePrefix (getStaticPrefix p) | p.
        p \<in> set patterns \<and> p \<noteq> ''*'' \<and> normalizePrefix (getStaticPrefix p) \<noteq> []}"
  by (induction patterns arbitrary: prefixes) (auto simp: Let_def set_setAdd)

lemma expandPathCandidates_base:
  "set base \<subseteq> set (expandPathCandidates base routePatterns)"
  using expandPrefixes_mono [of "newSet base"] by (simp add: expandPathCandidates_def set_newSet)

lemma getPathCandidates_started:
  "c \<in> set (getPathCandidates newURL ctx fallback) \<Longrightarrow> startsWith c ''/''"
  by (auto simp: getPathCandidates_def Let_def set_setAdd startsWith_normalize
      split: option.splits if_splits)

lemma getPathCandidates_members:
  "normalizePathCandidate (pathname (resolveUrl newURL (ctx_request ctx)))
     \<in> set (getPathCandidates newURL ctx fallback) \<and>
   normalizePathCandidate fallback \<in> set (getPathCandidates newURL ctx fallback) \<and>
   (\<forall>p. ctx_path ctx = Some p \<and> p \<noteq> [] \<longrightarrow>
      normalizePathCandidate p \<in> set (getPathCandidates newURL ctx fallback)) \<and>
   (\<forall>r. ctx_route ctx = Some r \<and> r \<noteq> [] \<longrightarrow>
      normalizePathCandidate r \<in> set (getPathCandidates newURL ctx fallback))"
  by (auto simp: getPathCandidates_def Let_def set_setAdd split: option.splits)

text \<open>What the expansion holds for one pattern and one base candidate that starts with a slash.\<close>

lemma expandPathCandidates_pattern:
  assumes pat: "pattern \<in> set routePatterns"
    and c: "c \<in> set base"
    and started: "startsWith c ''/''"
  shows "set (expandStep (normalizePrefix (getStaticPrefix pattern)) [] c)
           \<subseteq> set (expandPathCandidates base routePatterns)"
proof (cases "pattern \<noteq> ''*'' \<and> normalizePrefix (getStaticPrefix pattern) \<noteq> []")
  case True
  with pat have "normalizePrefix (getStaticPrefix pattern) \<in> set (collectPrefixes [] routePatterns)"
    by (auto simp: set_collectPrefixes)
  then show ?thesis
    using expandPrefixes_adds [OF _ c] by (simp add: expandPathCandidates_def)
next
  case False
  then have empty: "normalizePrefix (getStaticPrefix pattern) = []"
    using star_prefix by auto
  from started obtain w where "c = CHR ''/'' # w"
    by (auto simp: startsWith_slash_iff)
  then have "set (expandStep [] [] c) = {c}"
    by (simp add: expandStep_def Let_def startsWith_def setAdd_def normalizePathCandidate_def)
  then show ?thesis
    using c expandPathCandidates_base [of base routePatterns] by (auto simp: empty)
qed

text \<open>
  C3, as amended. The candidates of a request hold (i) the pathname of the request URL,
  normalized to start with a slash; (ii) \<^verbatim>\<open>ctx.path\<close> and \<^verbatim>\<open>ctx.route\<close>, normalized likewise,
  when they are non-empty strings; (iii) for every route pattern, with the prefix
  extracted from it, and for every base candidate: the prefix followed by the candidate
  when the candidate does not start with the prefix, and otherwise the rest of the
  candidate after the prefix, where an empty rest is replaced by \<^verbatim>\<open>/\<close> and a rest that
  does not start with a slash is given one.
\<close>

theorem candidates_cover:
  "normalizePathCandidate (pathname (resolveUrl newURL (ctx_request ctx)))
     \<in> set (pathCandidates newURL routePatterns ctx) \<and>
   (\<forall>p. ctx_path ctx = Some p \<and> p \<noteq> [] \<longrightarrow>
      normalizePathCandidate p \<in> set (pathCandidates newURL routePatterns ctx)) \<and>
   (\<forall>r. ctx_route ctx = Some r \<and> r \<noteq> [] \<longrightarrow>
      normalizePathCandidate r \<in> set (pathCandidates newURL routePatterns ctx)) \<and>
   (\<forall>pattern \<in> set routePatterns.
      \<forall>c \<in> set (getPathCandidates newURL ctx (adapterPath newURL ctx)).
        (\<not> startsWith c (normalizePrefix (getStaticPrefix pattern)) \<longrightarrow>
           normalizePrefix (getStaticPrefix pattern) @ c
             \<in> set (pathCandidates newURL routePatterns ctx)) \<and>
        (startsWith c (normalizePrefix (getStaticPrefix pattern)) \<longrightarrow>
           normalizePathCandidate
             (if drop (length (normalizePrefix (getStaticPrefix pattern))) c = [] then ''/''
              else drop (length (normalizePrefix (getStaticPrefix pattern))) c)
             \<in> set (pathCandidates newURL routePatterns ctx)))"
proof -
  let ?base = "getPathCandidates newURL ctx (adapterPath newURL ctx)"
  let ?all = "pathCandidates newURL routePatterns ctx"
  have base: "set ?base \<subseteq> set ?all"
    by (simp add: pathCandidates_def expandPathCandidates_base)
  have members: "normalizePathCandidate (pathname (resolveUrl newURL (ctx_request ctx))) \<in> set ?all"
    "\<And>p. ctx_path ctx = Some p \<and> p \<noteq> [] \<Longrightarrow> normalizePathCandidate p \<in> set ?all"
    "\<And>r. ctx_route ctx = Some r \<and> r \<noteq> [] \<Longrightarrow> normalizePathCandidate r \<in> set ?all"
    using getPathCandidates_members [of newURL ctx "adapterPath newURL ctx"] base by blast+
  have expanded:
    "(\<not> startsWith c (normalizePrefix (getStaticPrefix pattern)) \<longrightarrow>
        normalizePrefix (getStaticPrefix pattern) @ c \<in> set ?all) \<and>
     (startsWith c (normalizePrefix (getStaticPrefix pattern)) \<longrightarrow>
        normalizePathCandidate
          (if drop (length (normalizePrefix (getStaticPrefix pattern))) c = [] then ''/''
           else drop (length (normalizePrefix (getStaticPrefix pattern))) c) \<in> set ?all)"
    if pat: "pattern \<in> set routePatterns" and c: "c \<in> set ?base" for pattern c
  proof -
    let ?prefix = "normalizePrefix (getStaticPrefix pattern)"
    have started: "startsWith c ''/''"
      using c by (rule getPathCandidates_started)
    have sub: "set (expandStep ?prefix [] c) \<subseteq> set ?all"
      using expandPathCandidates_pattern [OF pat c started] by (simp add: pathCandidates_def)
    have prepend: "normalizePathCandidate (?prefix @ c) = ?prefix @ c"
      if "\<not> startsWith c ?prefix"
    proof -
      from that have "?prefix \<noteq> []" by (auto simp: startsWith_empty)
      then have "startsWith ?prefix ''/''"
        using normalizePrefix_shape [of pattern] by simp
      then have "startsWith (?prefix @ c) ''/''"
        by (auto simp: startsWith_slash_iff)
      then show ?thesis by (rule normalize_started)
    qed
    show ?thesis
      using sub expandStep_adds [of c ?prefix "[]"] prepend by auto
  qed
  show ?thesis
    using members expanded by blast
qed

lemmas path_defs =
  pathCandidates_def getPathCandidates_def adapterPath_def resolveUrl_def expandPathCandidates_def
  expandStep_def newSet_def setAdd_def getStaticPrefix_def normalizePrefix_def
  stripTrailingSlashes_def normalizePathCandidate_def startsWith_def Let_def

lemmas example_defs = exampleCtx_def exampleRequest_def exampleParser_def exampleURLs_def

lemma example_api_candidates:
  "pathCandidates exampleParser [''/api/premium''] (exampleCtx ''http://localhost/api'' ''/api'')
     = [''/api'', ''/'']"
  by (simp add: path_defs example_defs)

lemma example_api_base:
  "getPathCandidates exampleParser (exampleCtx ''http://localhost/api'' ''/api'')
     (adapterPath exampleParser (exampleCtx ''http://localhost/api'' ''/api'')) = [''/api'']"
  by (simp add: path_defs example_defs)

lemma example_api_prefix: "normalizePrefix (getStaticPrefix ''/api/premium'') = ''/api''"
  by (simp add: path_defs)

text \<open>The theorem at the request path \<^verbatim>\<open>/api\<close> with the route pattern \<^verbatim>\<open>/api/premium\<close>.\<close>

theorem candidates_cover_witness:
  "''/api'' \<in> set (pathCandidates exampleParser [''/api/premium'']
                      (exampleCtx ''http://localhost/api'' ''/api'')) \<and>
   ''/'' \<in> set (pathCandidates exampleParser [''/api/premium'']
                   (exampleCtx ''http://localhost/api'' ''/api''))"
proof -
  let ?ctx = "exampleCtx ''http://localhost/api'' ''/api''"
  note cover = candidates_cover [of exampleParser ?ctx "[''/api/premium'']"]
  have path: "ctx_path ?ctx = Some ''/api'' \<and> ''/api'' \<noteq> []"
    by (simp add: exampleCtx_def)
  from cover path have "normalizePathCandidate ''/api''
      \<in> set (pathCandidates exampleParser [''/api/premium''] ?ctx)"
    by blast
  then have first: "''/api'' \<in> set (pathCandidates exampleParser [''/api/premium''] ?ctx)"
    by (simp add: normalizePathCandidate_def startsWith_def)
  have pat: "''/api/premium'' \<in> set [''/api/premium'']" by simp
  have c: "''/api'' \<in> set (getPathCandidates exampleParser ?ctx (adapterPath exampleParser ?ctx))"
    by (simp add: example_api_base)
  have starts: "startsWith ''/api'' (normalizePrefix (getStaticPrefix ''/api/premium''))"
    by (simp add: example_api_prefix startsWith_def)
  from cover pat c starts have
    "normalizePathCandidate
       (if drop (length (normalizePrefix (getStaticPrefix ''/api/premium''))) ''/api'' = [] then ''/''
        else drop (length (normalizePrefix (getStaticPrefix ''/api/premium''))) ''/api'')
       \<in> set (pathCandidates exampleParser [''/api/premium''] ?ctx)"
    by blast
  then have second: "''/'' \<in> set (pathCandidates exampleParser [''/api/premium''] ?ctx)"
    by (simp add: example_api_prefix normalizePathCandidate_def startsWith_def)
  from first second show ?thesis by simp
qed

text \<open>
  C3 as it is written asks, for a candidate that starts with the prefix, for the
  candidate with the prefix stripped. For the request path \<^verbatim>\<open>/api\<close> and the route pattern
  \<^verbatim>\<open>/api/premium\<close>, whose prefix is \<^verbatim>\<open>/api\<close>, that is the empty string, which is not
  among the candidates: they are \<^verbatim>\<open>/api\<close> and \<^verbatim>\<open>/\<close>.
\<close>

theorem stripped_candidate_counterexample:
  "''/api'' \<in> set (getPathCandidates exampleParser (exampleCtx ''http://localhost/api'' ''/api'')
                      (adapterPath exampleParser (exampleCtx ''http://localhost/api'' ''/api''))) \<and>
   startsWith ''/api'' (normalizePrefix (getStaticPrefix ''/api/premium'')) \<and>
   drop (length (normalizePrefix (getStaticPrefix ''/api/premium''))) ''/api''
     \<notin> set (pathCandidates exampleParser [''/api/premium'']
               (exampleCtx ''http://localhost/api'' ''/api''))"
  by (simp add: example_api_base example_api_prefix example_api_candidates startsWith_def)

section \<open>Properties of the hooks\<close>

lemmas hook_defs =
  handleRequest_def onBeforeHandle_def onAfterHandle_def resultType_def setHeaders_def
  setStatus_def mergeHeaders_def configuredAutoTrack_def configuredAutoSettle_def
  preHandler_def fromHandler_def

lemmas example_hook_defs =
  exampleServer_def exampleLib_def exampleConfig_def exampleHandler_def uptoRequirements_def
  exactRequirements_def

lemma example_premium_candidates:
  "pathCandidates exampleParser [''/api/premium'']
     (exampleCtx ''http://localhost/api/premium'' ''/api/premium'') = [''/api/premium'', ''/premium'']"
  by (simp add: path_defs example_defs)

lemma example_short_candidates:
  "pathCandidates exampleParser [''/api/premium'']
     (exampleCtx ''http://localhost/premium'' ''/premium'') = [''/premium'', ''/api/premium'']"
  by (simp add: path_defs example_defs)

text \<open>
  Two requests against the route pattern \<^verbatim>\<open>/api/premium\<close>: a verified upto payment, which
  is tracked before the route handler runs, and a verified exact payment, found at the
  second candidate, which is settled after it.
\<close>

lemma example_upto_events:
  "out_events (handleRequest exampleParser exampleLib
      (exampleServer (PaymentVerified (JString ''signed'') uptoRequirements)) exampleConfig
      [''/api/premium''] exampleHandler
      (exampleCtx ''http://localhost/api/premium'' ''/api/premium''))
   = [ProcessHTTPRequestCall ''/api/premium'',
      TrackUptoPaymentCall (JString ''signed'') uptoRequirements, RouteHandlerCall]"
  unfolding handleRequest_def onBeforeHandle_def example_premium_candidates
  by (simp add: hook_defs example_hook_defs exampleCtx_def exampleRequest_def Let_def)

lemma example_exact_events:
  "out_events (handleRequest exampleParser exampleLib
      (exampleServer (PaymentVerified (JString ''signed'') exactRequirements)) exampleConfig
      [''/api/premium''] exampleHandler
      (exampleCtx ''http://localhost/premium'' ''/premium''))
   = [ProcessHTTPRequestCall ''/premium'', ProcessHTTPRequestCall ''/api/premium'', RouteHandlerCall,
      ProcessSettlementCall (JString ''signed'') exactRequirements]"
  unfolding handleRequest_def onBeforeHandle_def example_short_candidates
  by (simp add: hook_defs example_hook_defs exampleCtx_def exampleRequest_def Let_def)

text \<open>The loop over the candidates.\<close>

lemma npr_iff: "resultType r = ''no-payment-required'' \<longleftrightarrow> r = NoPaymentRequired"
  by (cases r) (simp_all add: resultType_def)

lemma processLoop_stops:
  assumes "\<forall>p \<in> set pre. resultType (processHTTPRequest httpServer p m) = ''no-payment-required''"
    and "resultType (processHTTPRequest httpServer c m) \<noteq> ''no-payment-required''"
  shows "processLoop httpServer m res (pre @ c # post)
           = (map ProcessHTTPRequestCall (pre @ [c]), processHTTPRequest httpServer c m)"
  using assms by (induction pre arbitrary: res) (simp_all add: Let_def)

lemma processLoop_all:
  assumes "\<forall>p \<in> set cands. resultType (processHTTPRequest httpServer p m) = ''no-payment-required''"
  shows "processLoop httpServer m res cands
           = (map ProcessHTTPRequestCall cands,
              if cands = [] then res else processHTTPRequest httpServer (last cands) m)"
  using assms by (induction cands arbitrary: res) (simp_all add: Let_def)

lemma processLoop_calls:
  "\<exists>called. called \<noteq> [] \<and> fst (processLoop httpServer m res (c # cands)) = map ProcessHTTPRequestCall called"
proof (induction cands arbitrary: c res)
  case Nil
  show ?case
    by (rule exI [of _ "[c]"]) (simp add: Let_def)
next
  case (Cons d cands)
  from Cons.IH [where c = d and res = "processHTTPRequest httpServer c m"] obtain called where
    "called \<noteq> [] \<and> fst (processLoop httpServer m (processHTTPRequest httpServer c m) (d # cands))
        = map ProcessHTTPRequestCall called"
    by blast
  then show ?case
    by (cases "resultType (processHTTPRequest httpServer c m) = ''no-payment-required''")
      (auto simp: Let_def split: prod.splits intro: exI [of _ "c # called"] exI [of _ "[c]"])
qed

lemma processLoop_from_library:
  "cands \<noteq> [] \<Longrightarrow>
     \<exists>c \<in> set cands. snd (processLoop httpServer m res cands) = processHTTPRequest httpServer c m"
proof (induction cands arbitrary: res)
  case Nil
  then show ?case by simp
next
  case (Cons c cands)
  show ?case
  proof (cases "resultType (processHTTPRequest httpServer c m) \<noteq> ''no-payment-required'' \<or> cands = []")
    case True
    then show ?thesis by (auto simp: Let_def)
  next
    case False
    then have "\<exists>d \<in> set cands.
        snd (processLoop httpServer m (processHTTPRequest httpServer c m) cands)
          = processHTTPRequest httpServer d m"
      using Cons.IH by simp
    with False show ?thesis by (auto simp: Let_def split: prod.splits)
  qed
qed

lemma pathCandidates_nonempty: "pathCandidates newURL routePatterns ctx \<noteq> []"
  using getPathCandidates_members [of newURL ctx "adapterPath newURL ctx"]
    expandPathCandidates_base [of "getPathCandidates newURL ctx (adapterPath newURL ctx)" routePatterns]
  by (auto simp: pathCandidates_def)

text \<open>The hook, by the result the loop ends with.\<close>

lemma before_error:
  assumes "processLoop httpServer (req_method (ctx_request ctx)) NoPaymentRequired
             (pathCandidates newURL routePatterns ctx) = (calls, PaymentError response)"
  shows "onBeforeHandle newURL lib httpServer config routePatterns ctx =
     \<lparr>hook_events = calls,
      hook_ctx = setHeaders (setStatus (ctx\<lparr>ctx_x402 := Some \<lparr>result = PaymentError response, tracking = None\<rparr>\<rparr>)
                   (resp_status response)) (resp_headers response),
      hook_return = resp_body response\<rparr>"
  by (simp add: onBeforeHandle_def assms)

lemma before_none:
  assumes "processLoop httpServer (req_method (ctx_request ctx)) NoPaymentRequired
             (pathCandidates newURL routePatterns ctx) = (calls, NoPaymentRequired)"
  shows "onBeforeHandle newURL lib httpServer config routePatterns ctx =
     \<lparr>hook_events = calls,
      hook_ctx = ctx\<lparr>ctx_x402 := Some \<lparr>result = NoPaymentRequired, tracking = None\<rparr>\<rparr>,
      hook_return = JUndefined\<rparr>"
  by (simp add: onBeforeHandle_def assms)

lemma before_untracked:
  assumes "processLoop httpServer (req_method (ctx_request ctx)) NoPaymentRequired
             (pathCandidates newURL routePatterns ctx) = (calls, PaymentVerified p r)"
    and "upto config = None \<or> scheme r \<noteq> ''upto'' \<or> \<not> configuredAutoTrack config"
  shows "onBeforeHandle newURL lib httpServer config routePatterns ctx =
     \<lparr>hook_events = calls,
      hook_ctx = ctx\<lparr>ctx_x402 := Some \<lparr>result = PaymentVerified p r, tracking = None\<rparr>\<rparr>,
      hook_return = JUndefined\<rparr>"
  using assms(2) by (auto simp: onBeforeHandle_def assms(1) Let_def split: option.splits)

lemma before_tracked:
  assumes "processLoop httpServer (req_method (ctx_request ctx)) NoPaymentRequired
             (pathCandidates newURL routePatterns ctx) = (calls, PaymentVerified p r)"
    and "upto config = Some u" and "scheme r = ''upto''" and "configuredAutoTrack config"
  shows "hook_events (onBeforeHandle newURL lib httpServer config routePatterns ctx)
           = calls @ [TrackUptoPaymentCall p r] \<and>
         ctx_x402 (hook_ctx (onBeforeHandle newURL lib httpServer config routePatterns ctx))
           = Some \<lparr>result = PaymentVerified p r, tracking = Some (trackUptoPayment lib (store u) p r)\<rparr> \<and>
         (hook_return (onBeforeHandle newURL lib httpServer config routePatterns ctx) = JUndefined
            \<longleftrightarrow> (\<exists>sessionId. trackUptoPayment lib (store u) p r = TrackingSuccess sessionId))"
  by (cases "trackUptoPayment lib (store u) p r")
    (simp_all add: onBeforeHandle_def assms Let_def setHeaders_def setStatus_def)


lemma onBeforeHandle_result:
  "\<exists>tr. ctx_x402 (hook_ctx (onBeforeHandle newURL lib httpServer config routePatterns ctx))
      = Some \<lparr>result = snd (processLoop httpServer (req_method (ctx_request ctx)) NoPaymentRequired
                              (pathCandidates newURL routePatterns ctx)),
               tracking = tr\<rparr>"
proof -
  obtain calls res where loop:
    "processLoop httpServer (req_method (ctx_request ctx)) NoPaymentRequired
       (pathCandidates newURL routePatterns ctx) = (calls, res)"
    by (cases "processLoop httpServer (req_method (ctx_request ctx)) NoPaymentRequired
       (pathCandidates newURL routePatterns ctx)")
  show ?thesis
  proof (cases res)
    case NoPaymentRequired
    with loop show ?thesis by (simp add: before_none)
  next
    case (PaymentError response)
    with loop show ?thesis by (simp add: before_error setHeaders_def setStatus_def)
  next
    case (PaymentVerified p r)
    show ?thesis
    proof (cases "upto config = None \<or> scheme r \<noteq> ''upto'' \<or> \<not> configuredAutoTrack config")
      case True
      with loop PaymentVerified show ?thesis by (simp add: before_untracked)
    next
      case False
      then obtain u where "upto config = Some u" "scheme r = ''upto''" "configuredAutoTrack config"
        by auto
      with loop PaymentVerified show ?thesis
        using before_tracked [of httpServer ctx newURL routePatterns calls p r config u lib] by simp
    qed
  qed
qed

lemma onBeforeHandle_events:
  "\<exists>tr. hook_events (onBeforeHandle newURL lib httpServer config routePatterns ctx)
          = fst (processLoop httpServer (req_method (ctx_request ctx)) NoPaymentRequired
                   (pathCandidates newURL routePatterns ctx)) @ tr \<and>
        (tr = [] \<or> (\<exists>p r. tr = [TrackUptoPaymentCall p r]))"
proof -
  obtain calls res where loop:
    "processLoop httpServer (req_method (ctx_request ctx)) NoPaymentRequired
       (pathCandidates newURL routePatterns ctx) = (calls, res)"
    by (cases "processLoop httpServer (req_method (ctx_request ctx)) NoPaymentRequired
       (pathCandidates newURL routePatterns ctx)")
  show ?thesis
  proof (cases res)
    case NoPaymentRequired
    with loop show ?thesis by (simp add: before_none)
  next
    case (PaymentError response)
    with loop show ?thesis by (simp add: before_error)
  next
    case (PaymentVerified p r)
    show ?thesis
    proof (cases "upto config = None \<or> scheme r \<noteq> ''upto'' \<or> \<not> configuredAutoTrack config")
      case True
      with loop PaymentVerified show ?thesis by (simp add: before_untracked)
    next
      case False
      then obtain u where "upto config = Some u" "scheme r = ''upto''" "configuredAutoTrack config"
        by auto
      with loop PaymentVerified show ?thesis
        using before_tracked [of httpServer ctx newURL routePatterns calls p r config u lib] by simp
    qed
  qed
qed

lemma early_return_no_settlement:
  assumes "hook_return (onBeforeHandle newURL lib httpServer config routePatterns ctx) \<noteq> JUndefined"
  shows "fst (onAfterHandle httpServer config
            (hook_ctx (onBeforeHandle newURL lib httpServer config routePatterns ctx))) = []"
proof -
  obtain calls res where loop:
    "processLoop httpServer (req_method (ctx_request ctx)) NoPaymentRequired
       (pathCandidates newURL routePatterns ctx) = (calls, res)"
    by (cases "processLoop httpServer (req_method (ctx_request ctx)) NoPaymentRequired
       (pathCandidates newURL routePatterns ctx)")
  show ?thesis
  proof (cases res)
    case NoPaymentRequired
    with loop assms show ?thesis by (simp add: before_none)
  next
    case (PaymentError response)
    with loop show ?thesis
      by (simp add: before_error onAfterHandle_def setHeaders_def setStatus_def)
  next
    case (PaymentVerified p r)
    show ?thesis
    proof (cases "upto config = None \<or> scheme r \<noteq> ''upto'' \<or> \<not> configuredAutoTrack config")
      case True
      with loop PaymentVerified assms show ?thesis by (simp add: before_untracked)
    next
      case False
      then obtain u where u: "upto config = Some u" "scheme r = ''upto''" "configuredAutoTrack config"
        by auto
      note tracked = before_tracked [OF loop [unfolded PaymentVerified] u, of lib]
      with assms obtain err sessionId where
        "trackUptoPayment lib (store u) p r = TrackingFailure err sessionId"
        by (cases "trackUptoPayment lib (store u) p r") auto
      with tracked u show ?thesis
        by (simp add: onAfterHandle_def)
    qed
  qed
qed

lemma onAfterHandle_events:
  "fst (onAfterHandle httpServer config ctx) = [] \<or>
   (\<exists>p r. fst (onAfterHandle httpServer config ctx) = [ProcessSettlementCall p r])"
  by (simp add: onAfterHandle_def
      split: option.splits HTTPProcessResult.splits TrackingResult.splits ProcessSettleResult.splits)

text \<open>The events of a request, by the value the hook returned.\<close>

lemma handleRequest_early:
  "hook_return (onBeforeHandle newURL lib httpServer config routePatterns ctx) \<noteq> JUndefined \<Longrightarrow>
   hook_return (onBeforeHandle newURL lib httpServer config routePatterns ctx) \<noteq> JNull \<Longrightarrow>
   out_events (handleRequest newURL lib httpServer config routePatterns routeHandler ctx)
     = hook_events (onBeforeHandle newURL lib httpServer config routePatterns ctx)
       @ fst (onAfterHandle httpServer config
               (hook_ctx (onBeforeHandle newURL lib httpServer config routePatterns ctx)))"
  by (auto simp: handleRequest_def Let_def split: prod.splits)

lemma handleRequest_proceeds:
  "hook_return (onBeforeHandle newURL lib httpServer config routePatterns ctx) = JUndefined \<or>
   hook_return (onBeforeHandle newURL lib httpServer config routePatterns ctx) = JNull \<Longrightarrow>
   out_events (handleRequest newURL lib httpServer config routePatterns routeHandler ctx)
     = hook_events (onBeforeHandle newURL lib httpServer config routePatterns ctx)
       @ RouteHandlerCall # fst (onAfterHandle httpServer config
               (fst (routeHandler (hook_ctx (onBeforeHandle newURL lib httpServer config routePatterns ctx)))))"
  by (auto simp: handleRequest_def Let_def split: prod.splits)


lemma onBeforeHandle_calls:
  obtains called tr where "called \<noteq> []"
    and "hook_events (onBeforeHandle newURL lib httpServer config routePatterns ctx)
        = map ProcessHTTPRequestCall called @ tr"
    and "tr = [] \<or> (\<exists>p r. tr = [TrackUptoPaymentCall p r])"
proof -
  obtain c cands where cs: "pathCandidates newURL routePatterns ctx = c # cands"
    using pathCandidates_nonempty [of newURL routePatterns ctx]
    by (cases "pathCandidates newURL routePatterns ctx") auto
  from processLoop_calls [of httpServer "req_method (ctx_request ctx)" NoPaymentRequired c cands]
  obtain called where called: "called \<noteq> []"
    "fst (processLoop httpServer (req_method (ctx_request ctx)) NoPaymentRequired (c # cands))
       = map ProcessHTTPRequestCall called"
    by (elim exE conjE)
  from onBeforeHandle_events [of newURL lib httpServer config routePatterns ctx]
  obtain tr where tr: "hook_events (onBeforeHandle newURL lib httpServer config routePatterns ctx)
          = fst (processLoop httpServer (req_method (ctx_request ctx)) NoPaymentRequired
                   (pathCandidates newURL routePatterns ctx)) @ tr"
    "tr = [] \<or> (\<exists>p r. tr = [TrackUptoPaymentCall p r])"
    by (elim exE conjE)
  show thesis
  proof (rule that [of called tr])
    show "called \<noteq> []" by (rule called(1))
    show "hook_events (onBeforeHandle newURL lib httpServer config routePatterns ctx)
        = map ProcessHTTPRequestCall called @ tr"
      by (simp only: tr(1) cs called(2))
    show "tr = [] \<or> (\<exists>p r. tr = [TrackUptoPaymentCall p r])" by (rule tr(2))
  qed
qed

lemma processCalls_map: "processCalls (map ProcessHTTPRequestCall cs) = cs"
  by (induction cs) simp_all

lemma processCalls_append: "processCalls (xs @ ys) = processCalls xs @ processCalls ys"
  by (induction xs rule: processCalls.induct) simp_all

lemma takeWhile_before:
  assumes "RouteHandlerCall \<notin> set xs"
  shows "takeWhile (\<lambda>e. e \<noteq> RouteHandlerCall) (xs @ RouteHandlerCall # ys) = xs"
    and "dropWhile (\<lambda>e. e \<noteq> RouteHandlerCall) (xs @ RouteHandlerCall # ys) = RouteHandlerCall # ys"
    and "takeWhile (\<lambda>e. e \<noteq> RouteHandlerCall) xs = xs"
    and "dropWhile (\<lambda>e. e \<noteq> RouteHandlerCall) xs = []"
  using assms by (induction xs) auto

lemma before_events_clean:
  "RouteHandlerCall \<notin> set (hook_events (onBeforeHandle newURL lib httpServer config routePatterns ctx)) \<and>
   (\<forall>p r. ProcessSettlementCall p r
      \<notin> set (hook_events (onBeforeHandle newURL lib httpServer config routePatterns ctx)))"
proof -
  obtain called tr where "hook_events (onBeforeHandle newURL lib httpServer config routePatterns ctx)
        = map ProcessHTTPRequestCall called @ tr" "tr = [] \<or> (\<exists>p r. tr = [TrackUptoPaymentCall p r])"
    by (rule onBeforeHandle_calls)
  then show ?thesis by auto
qed

lemma after_events_clean:
  "processCalls (fst (onAfterHandle httpServer config ctx)) = [] \<and>
   (\<forall>p r. TrackUptoPaymentCall p r \<notin> set (fst (onAfterHandle httpServer config ctx)))"
  using onAfterHandle_events [of httpServer config ctx] by auto

lemma request_phases:
  "preHandler (out_events (handleRequest newURL lib httpServer config routePatterns routeHandler ctx))
     = hook_events (onBeforeHandle newURL lib httpServer config routePatterns ctx) \<and>
   (fromHandler (out_events (handleRequest newURL lib httpServer config routePatterns routeHandler ctx))
      = [] \<or>
    fromHandler (out_events (handleRequest newURL lib httpServer config routePatterns routeHandler ctx))
      = RouteHandlerCall # fst (onAfterHandle httpServer config
               (fst (routeHandler (hook_ctx (onBeforeHandle newURL lib httpServer config routePatterns ctx))))))"
proof -
  let ?before = "onBeforeHandle newURL lib httpServer config routePatterns ctx"
  have clean: "RouteHandlerCall \<notin> set (hook_events ?before)"
    using before_events_clean [of newURL lib httpServer config routePatterns ctx] by simp
  show ?thesis
  proof (cases "hook_return ?before = JUndefined \<or> hook_return ?before = JNull")
    case True
    then show ?thesis
      using takeWhile_before(1,2) [OF clean]
      by (simp add: handleRequest_proceeds preHandler_def fromHandler_def)
  next
    case False
    then have early: "hook_return ?before \<noteq> JUndefined" "hook_return ?before \<noteq> JNull"
      by simp_all
    have "out_events (handleRequest newURL lib httpServer config routePatterns routeHandler ctx)
        = hook_events ?before"
      by (simp add: handleRequest_early [OF early] early_return_no_settlement [OF early(1)])
    then show ?thesis
      using takeWhile_before(3,4) [OF clean] by (simp add: preHandler_def fromHandler_def)
  qed
qed

text \<open>
  When the payment check ends with a verified payment that is not tracked, the hook
  returns nothing, so the route handler runs and \<^verbatim>\<open>onAfterHandle\<close> sees what it left.
\<close>

lemma untracked_from_handler:
  assumes "processLoop httpServer (req_method (ctx_request ctx)) NoPaymentRequired
             (pathCandidates newURL routePatterns ctx) = (calls, PaymentVerified p r)"
    and "upto config = None \<or> scheme r \<noteq> ''upto'' \<or> \<not> configuredAutoTrack config"
  shows "out_events (handleRequest newURL lib httpServer config routePatterns routeHandler ctx)
     = calls @ RouteHandlerCall # fst (onAfterHandle httpServer config
         (fst (routeHandler (ctx\<lparr>ctx_x402 := Some \<lparr>result = PaymentVerified p r, tracking = None\<rparr>\<rparr>))))"
proof -
  note hook = before_untracked [OF assms, of lib]
  have "hook_return (onBeforeHandle newURL lib httpServer config routePatterns ctx) = JUndefined \<or>
      hook_return (onBeforeHandle newURL lib httpServer config routePatterns ctx) = JNull"
    by (simp add: hook)
  from handleRequest_proceeds [OF this, of routeHandler] show ?thesis
    by (simp add: hook)
qed

text \<open>
  For an upto payment \<^verbatim>\<open>onAfterHandle\<close> makes no call: it only puts the session header of
  a tracked payment on the response again.
\<close>

lemma after_upto_only_header:
  assumes "ctx_x402 ctx = Some state" and "result state = PaymentVerified p r"
    and "scheme r = ''upto''"
  shows "onAfterHandle httpServer config ctx =
     ([], case tracking state of
            Some (TrackingSuccess sessionId) \<Rightarrow> setHeaders ctx [''x-upto-session-id'' \<mapsto> sessionId]
          | _ \<Rightarrow> ctx)"
  using assms by (simp add: onAfterHandle_def split: option.splits TrackingResult.splits)

text \<open>What the hook stored and which candidates it asked, in terms of the loop.\<close>

lemma processCalls_tracking:
  "tr = [] \<or> (\<exists>p r. tr = [TrackUptoPaymentCall p r]) \<Longrightarrow> processCalls tr = []"
  by auto

lemma hook_processCalls:
  "processCalls (hook_events (onBeforeHandle newURL lib httpServer config routePatterns ctx))
     = processCalls (fst (processLoop httpServer (req_method (ctx_request ctx)) NoPaymentRequired
                            (pathCandidates newURL routePatterns ctx)))"
proof -
  from onBeforeHandle_events [of newURL lib httpServer config routePatterns ctx]
  obtain tr where tr: "hook_events (onBeforeHandle newURL lib httpServer config routePatterns ctx)
          = fst (processLoop httpServer (req_method (ctx_request ctx)) NoPaymentRequired
                   (pathCandidates newURL routePatterns ctx)) @ tr"
    "tr = [] \<or> (\<exists>p r. tr = [TrackUptoPaymentCall p r])"
    by (elim exE conjE)
  show ?thesis
    by (simp only: tr(1) processCalls_append processCalls_tracking [OF tr(2)] append_Nil2)
qed

lemma hook_result:
  "map_option result (ctx_x402 (hook_ctx (onBeforeHandle newURL lib httpServer config routePatterns ctx)))
     = Some (snd (processLoop httpServer (req_method (ctx_request ctx)) NoPaymentRequired
                    (pathCandidates newURL routePatterns ctx)))"
  using onBeforeHandle_result [of newURL lib httpServer config routePatterns ctx] by auto

lemma stored_result_loop:
  assumes "map_option result
      (ctx_x402 (hook_ctx (onBeforeHandle newURL lib httpServer config routePatterns ctx))) = Some res"
  shows "processLoop httpServer (req_method (ctx_request ctx)) NoPaymentRequired
      (pathCandidates newURL routePatterns ctx)
      = (fst (processLoop httpServer (req_method (ctx_request ctx)) NoPaymentRequired
               (pathCandidates newURL routePatterns ctx)), res)"
  using assms hook_result [of newURL lib httpServer config routePatterns ctx]
  by (simp add: prod_eq_iff)

text \<open>
  C1, as amended. In every request the middleware calls \<^verbatim>\<open>processHTTPRequest\<close> at least
  once, and every call of the \<^verbatim>\<open>onBeforeHandle\<close> hook is made before the route handler
  runs; from the route handler on there is no payment check and no tracking call, and a
  settlement call is never made before the route handler. When the stored result is a
  verified upto payment and upto tracking is configured and on, the tracking call is
  made, after the payment checks and before the route handler. When the stored result is
  a verified payment that is not an upto payment, settlement is on and the route handler
  leaves \<^verbatim>\<open>ctx.x402\<close> in place, the route handler runs and the settlement call is made
  after it.
\<close>

theorem phases_of_a_request:
  "processCalls (preHandler (out_events
      (handleRequest newURL lib httpServer config routePatterns routeHandler ctx))) \<noteq> [] \<and>
   preHandler (out_events
      (handleRequest newURL lib httpServer config routePatterns routeHandler ctx))
     = hook_events (onBeforeHandle newURL lib httpServer config routePatterns ctx) \<and>
   processCalls (fromHandler (out_events
      (handleRequest newURL lib httpServer config routePatterns routeHandler ctx))) = [] \<and>
   (\<forall>p r. TrackUptoPaymentCall p r \<notin> set (fromHandler (out_events
      (handleRequest newURL lib httpServer config routePatterns routeHandler ctx)))) \<and>
   (\<forall>p r. ProcessSettlementCall p r \<notin> set (preHandler (out_events
      (handleRequest newURL lib httpServer config routePatterns routeHandler ctx)))) \<and>
   (\<forall>p r u.
      map_option result
        (ctx_x402 (hook_ctx (onBeforeHandle newURL lib httpServer config routePatterns ctx)))
        = Some (PaymentVerified p r) \<and>
      scheme r = ''upto'' \<and> upto config = Some u \<and> configuredAutoTrack config \<longrightarrow>
      (\<exists>called. preHandler (out_events
          (handleRequest newURL lib httpServer config routePatterns routeHandler ctx))
         = map ProcessHTTPRequestCall called @ [TrackUptoPaymentCall p r])) \<and>
   (\<forall>p r.
      map_option result
        (ctx_x402 (hook_ctx (onBeforeHandle newURL lib httpServer config routePatterns ctx)))
        = Some (PaymentVerified p r) \<and>
      scheme r \<noteq> ''upto'' \<and> configuredAutoSettle config \<and>
      ctx_x402 (fst (routeHandler
          (hook_ctx (onBeforeHandle newURL lib httpServer config routePatterns ctx))))
        = ctx_x402 (hook_ctx (onBeforeHandle newURL lib httpServer config routePatterns ctx)) \<longrightarrow>
      fromHandler (out_events
          (handleRequest newURL lib httpServer config routePatterns routeHandler ctx))
        = [RouteHandlerCall, ProcessSettlementCall p r])"
proof -
  let ?ev = "out_events (handleRequest newURL lib httpServer config routePatterns routeHandler ctx)"
  let ?before = "onBeforeHandle newURL lib httpServer config routePatterns ctx"
  let ?after = "fst (onAfterHandle httpServer config (fst (routeHandler (hook_ctx ?before))))"
  let ?m = "req_method (ctx_request ctx)"
  let ?cands = "pathCandidates newURL routePatterns ctx"
  note phases = request_phases [of newURL lib httpServer config routePatterns routeHandler ctx]
  from phases have pre: "preHandler ?ev = hook_events ?before" by (rule conjunct1)
  from phases have "from": "fromHandler ?ev = [] \<or> fromHandler ?ev = RouteHandlerCall # ?after"
    by (rule conjunct2)
  obtain called tr where called: "called \<noteq> []"
    "hook_events ?before = map ProcessHTTPRequestCall called @ tr"
    by (rule onBeforeHandle_calls)
  have c1: "processCalls (preHandler ?ev) \<noteq> []"
    using called by (simp add: pre processCalls_append processCalls_map)
  have c3: "processCalls (fromHandler ?ev) = []"
    using "from" after_events_clean [of httpServer config "fst (routeHandler (hook_ctx ?before))"]
    by (elim disjE) simp_all
  have c4: "\<forall>p r. TrackUptoPaymentCall p r \<notin> set (fromHandler ?ev)"
    using "from" after_events_clean [of httpServer config "fst (routeHandler (hook_ctx ?before))"]
    by (elim disjE) simp_all
  have c5: "\<forall>p r. ProcessSettlementCall p r \<notin> set (preHandler ?ev)"
    using before_events_clean [of newURL lib httpServer config routePatterns ctx] by (simp add: pre)
  have c6: "\<exists>called. preHandler ?ev = map ProcessHTTPRequestCall called @ [TrackUptoPaymentCall p r]"
    if a: "map_option result (ctx_x402 (hook_ctx ?before)) = Some (PaymentVerified p r) \<and>
      scheme r = ''upto'' \<and> upto config = Some u \<and> configuredAutoTrack config" for p r u
  proof -
    from a have kept: "map_option result (ctx_x402 (hook_ctx ?before)) = Some (PaymentVerified p r)"
      by (rule conjunct1)
    have loop: "processLoop httpServer ?m NoPaymentRequired ?cands
        = (fst (processLoop httpServer ?m NoPaymentRequired ?cands), PaymentVerified p r)"
      by (rule stored_result_loop [OF kept])
    from a have u: "upto config = Some u" "scheme r = ''upto''" "configuredAutoTrack config"
      by simp_all
    from before_tracked [OF loop u, of lib]
    have ev: "hook_events ?before
        = fst (processLoop httpServer ?m NoPaymentRequired ?cands) @ [TrackUptoPaymentCall p r]"
      by (rule conjunct1)
    obtain c cands where cs: "?cands = c # cands"
      using pathCandidates_nonempty [of newURL routePatterns ctx] by (cases ?cands) auto
    from processLoop_calls [of httpServer ?m NoPaymentRequired c cands]
    obtain made where "fst (processLoop httpServer ?m NoPaymentRequired (c # cands))
        = map ProcessHTTPRequestCall made"
      by (elim exE conjE)
    then have "hook_events ?before = map ProcessHTTPRequestCall made @ [TrackUptoPaymentCall p r]"
      by (simp only: ev cs)
    then have "preHandler ?ev = map ProcessHTTPRequestCall made @ [TrackUptoPaymentCall p r]"
      by (simp only: pre)
    then show ?thesis by (rule exI)
  qed
  have c7: "fromHandler ?ev = [RouteHandlerCall, ProcessSettlementCall p r]"
    if a: "map_option result (ctx_x402 (hook_ctx ?before)) = Some (PaymentVerified p r) \<and>
      scheme r \<noteq> ''upto'' \<and> configuredAutoSettle config \<and>
      ctx_x402 (fst (routeHandler (hook_ctx ?before))) = ctx_x402 (hook_ctx ?before)" for p r
  proof -
    let ?calls = "fst (processLoop httpServer ?m NoPaymentRequired ?cands)"
    from a have kept: "map_option result (ctx_x402 (hook_ctx ?before)) = Some (PaymentVerified p r)"
      by (rule conjunct1)
    have loop: "processLoop httpServer ?m NoPaymentRequired ?cands
        = (?calls, PaymentVerified p r)"
      by (rule stored_result_loop [OF kept])
    from a have untracked: "upto config = None \<or> scheme r \<noteq> ''upto'' \<or> \<not> configuredAutoTrack config"
      by simp
    note hook = before_untracked [OF loop untracked, of lib]
    from a have on: "scheme r \<noteq> ''upto''" "configuredAutoSettle config"
      and same: "ctx_x402 (fst (routeHandler (hook_ctx ?before))) = ctx_x402 (hook_ctx ?before)"
      by simp_all
    have "ctx_x402 (hook_ctx ?before) = Some \<lparr>result = PaymentVerified p r, tracking = None\<rparr>"
      by (simp add: hook)
    with same have stored: "ctx_x402 (fst (routeHandler (hook_ctx ?before)))
        = Some \<lparr>result = PaymentVerified p r, tracking = None\<rparr>"
      by (rule trans)
    from on have settle: "?after = [ProcessSettlementCall p r]"
      by (simp add: onAfterHandle_def stored split: ProcessSettleResult.splits)
    have ret: "hook_return ?before = JUndefined \<or> hook_return ?before = JNull"
      by (simp add: hook)
    have clean: "RouteHandlerCall \<notin> set (hook_events ?before)"
      using before_events_clean [of newURL lib httpServer config routePatterns ctx] by simp
    from handleRequest_proceeds [OF ret, of routeHandler] settle
    have "?ev = hook_events ?before @ RouteHandlerCall # [ProcessSettlementCall p r]"
      by simp
    then show ?thesis
      using takeWhile_before(2) [OF clean] by (simp add: fromHandler_def)
  qed
  have a6: "\<forall>p r u.
      map_option result (ctx_x402 (hook_ctx ?before)) = Some (PaymentVerified p r) \<and>
      scheme r = ''upto'' \<and> upto config = Some u \<and> configuredAutoTrack config \<longrightarrow>
      (\<exists>called. preHandler ?ev = map ProcessHTTPRequestCall called @ [TrackUptoPaymentCall p r])"
    using c6 by (intro allI impI)
  have a7: "\<forall>p r.
      map_option result (ctx_x402 (hook_ctx ?before)) = Some (PaymentVerified p r) \<and>
      scheme r \<noteq> ''upto'' \<and> configuredAutoSettle config \<and>
      ctx_x402 (fst (routeHandler (hook_ctx ?before))) = ctx_x402 (hook_ctx ?before) \<longrightarrow>
      fromHandler ?ev = [RouteHandlerCall, ProcessSettlementCall p r]"
    using c7 by (intro allI impI)
  from c1 pre c3 c4 c5 a6 a7 show ?thesis by (intro conjI)
qed

text \<open>
  C1 as it is written places the upto tracking after the route handler. For a verified
  upto payment on \<^verbatim>\<open>/api/premium\<close> the tracking call is made before the route handler, and
  nothing follows the route handler.
\<close>

theorem tracking_before_handler_counterexample:
  "TrackUptoPaymentCall (JString ''signed'') uptoRequirements
     \<in> set (preHandler (out_events (handleRequest exampleParser exampleLib
          (exampleServer (PaymentVerified (JString ''signed'') uptoRequirements)) exampleConfig
          [''/api/premium''] exampleHandler
          (exampleCtx ''http://localhost/api/premium'' ''/api/premium'')))) \<and>
   fromHandler (out_events (handleRequest exampleParser exampleLib
          (exampleServer (PaymentVerified (JString ''signed'') uptoRequirements)) exampleConfig
          [''/api/premium''] exampleHandler
          (exampleCtx ''http://localhost/api/premium'' ''/api/premium''))) = [RouteHandlerCall]"
  by (simp add: example_upto_events preHandler_def fromHandler_def)

text \<open>
  C7. The hook calls \<^verbatim>\<open>processHTTPRequest\<close> on the candidates in order. When some
  candidate's result is not \<^verbatim>\<open>no-payment-required\<close>, the calls are those up to the first
  such candidate and its result is the one stored in \<^verbatim>\<open>ctx.x402\<close>. When every candidate's
  result is \<^verbatim>\<open>no-payment-required\<close>, every candidate is called, the stored result is the
  last candidate's, the hook returns nothing and leaves \<^verbatim>\<open>ctx.set\<close> alone, and the route
  handler runs.
\<close>

theorem first_result_that_requires_payment:
  "(\<forall>pre c post.
      pathCandidates newURL routePatterns ctx = pre @ c # post \<and>
      (\<forall>p \<in> set pre. resultType (processHTTPRequest httpServer p (req_method (ctx_request ctx)))
                        = ''no-payment-required'') \<and>
      resultType (processHTTPRequest httpServer c (req_method (ctx_request ctx)))
        \<noteq> ''no-payment-required'' \<longrightarrow>
      processCalls (hook_events (onBeforeHandle newURL lib httpServer config routePatterns ctx))
        = pre @ [c] \<and>
      map_option result
        (ctx_x402 (hook_ctx (onBeforeHandle newURL lib httpServer config routePatterns ctx)))
        = Some (processHTTPRequest httpServer c (req_method (ctx_request ctx)))) \<and>
   ((\<forall>p \<in> set (pathCandidates newURL routePatterns ctx).
       resultType (processHTTPRequest httpServer p (req_method (ctx_request ctx)))
         = ''no-payment-required'') \<longrightarrow>
      hook_events (onBeforeHandle newURL lib httpServer config routePatterns ctx)
        = map ProcessHTTPRequestCall (pathCandidates newURL routePatterns ctx) \<and>
      map_option result
        (ctx_x402 (hook_ctx (onBeforeHandle newURL lib httpServer config routePatterns ctx)))
        = Some (processHTTPRequest httpServer (last (pathCandidates newURL routePatterns ctx))
                  (req_method (ctx_request ctx))) \<and>
      hook_return (onBeforeHandle newURL lib httpServer config routePatterns ctx) = JUndefined \<and>
      ctx_set (hook_ctx (onBeforeHandle newURL lib httpServer config routePatterns ctx)) = ctx_set ctx \<and>
      RouteHandlerCall
        \<in> set (out_events (handleRequest newURL lib httpServer config routePatterns routeHandler ctx)))"
proof (intro conjI allI impI)
  let ?m = "req_method (ctx_request ctx)"
  let ?cands = "pathCandidates newURL routePatterns ctx"
  let ?before = "onBeforeHandle newURL lib httpServer config routePatterns ctx"
  {
    fix pre c post
    assume a: "?cands = pre @ c # post \<and>
      (\<forall>p \<in> set pre. resultType (processHTTPRequest httpServer p ?m) = ''no-payment-required'') \<and>
      resultType (processHTTPRequest httpServer c ?m) \<noteq> ''no-payment-required''"
    then have loop: "processLoop httpServer ?m NoPaymentRequired ?cands
        = (map ProcessHTTPRequestCall (pre @ [c]), processHTTPRequest httpServer c ?m)"
      using processLoop_stops [of pre httpServer ?m c NoPaymentRequired post] by simp
    show "processCalls (hook_events ?before) = pre @ [c]"
      by (simp only: hook_processCalls loop fst_conv processCalls_map)
    show "map_option result (ctx_x402 (hook_ctx ?before)) = Some (processHTTPRequest httpServer c ?m)"
      by (simp only: hook_result loop snd_conv)
  }
  assume all: "\<forall>p \<in> set ?cands. resultType (processHTTPRequest httpServer p ?m) = ''no-payment-required''"
  have nonempty: "?cands \<noteq> []" by (rule pathCandidates_nonempty)
  then have "last ?cands \<in> set ?cands" by simp
  with all have lastNone: "processHTTPRequest httpServer (last ?cands) ?m = NoPaymentRequired"
    by (simp add: npr_iff)
  have loop: "processLoop httpServer ?m NoPaymentRequired ?cands
      = (map ProcessHTTPRequestCall ?cands, NoPaymentRequired)"
    using processLoop_all [OF all, of NoPaymentRequired] nonempty lastNone by simp
  note hook = before_none [OF loop, of lib config]
  show "hook_events ?before = map ProcessHTTPRequestCall ?cands"
    by (simp add: hook)
  show "map_option result (ctx_x402 (hook_ctx ?before))
      = Some (processHTTPRequest httpServer (last ?cands) ?m)"
    by (simp add: hook lastNone)
  show ret: "hook_return ?before = JUndefined"
    by (simp add: hook)
  show "ctx_set (hook_ctx ?before) = ctx_set ctx"
    by (simp add: hook)
  show "RouteHandlerCall
      \<in> set (out_events (handleRequest newURL lib httpServer config routePatterns routeHandler ctx))"
    by (simp add: handleRequest_proceeds ret)
qed

lemma exampleServer_calls:
  "processHTTPRequest (exampleServer r) ''/api/premium'' m = r"
  "processHTTPRequest (exampleServer r) ''/premium'' m = NoPaymentRequired"
  "processHTTPRequest (exampleServer r) ''/api'' m = NoPaymentRequired"
  "processHTTPRequest (exampleServer r) ''/'' m = NoPaymentRequired"
  by (simp_all add: exampleServer_def)

text \<open>
  The theorem at two requests against the route pattern \<^verbatim>\<open>/api/premium\<close>: the path
  \<^verbatim>\<open>/premium\<close>, whose second candidate requires payment, and the path \<^verbatim>\<open>/api\<close>, none of
  whose candidates does.
\<close>

theorem first_result_that_requires_payment_witness:
  "processCalls (hook_events (onBeforeHandle exampleParser exampleLib
      (exampleServer (PaymentVerified (JString ''signed'') exactRequirements)) exampleConfig
      [''/api/premium''] (exampleCtx ''http://localhost/premium'' ''/premium'')))
     = [''/premium'', ''/api/premium''] \<and>
   map_option result (ctx_x402 (hook_ctx (onBeforeHandle exampleParser exampleLib
      (exampleServer (PaymentVerified (JString ''signed'') exactRequirements)) exampleConfig
      [''/api/premium''] (exampleCtx ''http://localhost/premium'' ''/premium''))))
     = Some (PaymentVerified (JString ''signed'') exactRequirements) \<and>
   hook_events (onBeforeHandle exampleParser exampleLib
      (exampleServer (PaymentVerified (JString ''signed'') exactRequirements)) exampleConfig
      [''/api/premium''] (exampleCtx ''http://localhost/api'' ''/api''))
     = [ProcessHTTPRequestCall ''/api'', ProcessHTTPRequestCall ''/''] \<and>
   map_option result (ctx_x402 (hook_ctx (onBeforeHandle exampleParser exampleLib
      (exampleServer (PaymentVerified (JString ''signed'') exactRequirements)) exampleConfig
      [''/api/premium''] (exampleCtx ''http://localhost/api'' ''/api''))))
     = Some NoPaymentRequired \<and>
   RouteHandlerCall \<in> set (out_events (handleRequest exampleParser exampleLib
      (exampleServer (PaymentVerified (JString ''signed'') exactRequirements)) exampleConfig
      [''/api/premium''] exampleHandler (exampleCtx ''http://localhost/api'' ''/api'')))"
proof -
  let ?srv = "exampleServer (PaymentVerified (JString ''signed'') exactRequirements)"
  let ?short = "exampleCtx ''http://localhost/premium'' ''/premium''"
  let ?api = "exampleCtx ''http://localhost/api'' ''/api''"
  have m: "req_method (ctx_request ?short) = ''GET''" "req_method (ctx_request ?api) = ''GET''"
    by (simp_all add: exampleCtx_def exampleRequest_def)
  have stops: "pathCandidates exampleParser [''/api/premium''] ?short = [''/premium''] @ ''/api/premium'' # [] \<and>
      (\<forall>p \<in> set [''/premium'']. resultType (processHTTPRequest ?srv p (req_method (ctx_request ?short)))
                        = ''no-payment-required'') \<and>
      resultType (processHTTPRequest ?srv ''/api/premium'' (req_method (ctx_request ?short)))
        \<noteq> ''no-payment-required''"
    by (simp add: example_short_candidates exampleServer_calls resultType_def)
  have none: "\<forall>p \<in> set (pathCandidates exampleParser [''/api/premium''] ?api).
       resultType (processHTTPRequest ?srv p (req_method (ctx_request ?api))) = ''no-payment-required''"
    by (simp add: example_api_candidates exampleServer_calls resultType_def)
  from first_result_that_requires_payment
    [of exampleParser "[''/api/premium'']" ?short ?srv exampleLib exampleConfig exampleHandler] stops
  have first: "processCalls (hook_events (onBeforeHandle exampleParser exampleLib ?srv exampleConfig
        [''/api/premium''] ?short)) = [''/premium''] @ [''/api/premium''] \<and>
      map_option result (ctx_x402 (hook_ctx (onBeforeHandle exampleParser exampleLib ?srv exampleConfig
        [''/api/premium''] ?short)))
        = Some (processHTTPRequest ?srv ''/api/premium'' (req_method (ctx_request ?short)))"
    by blast
  from first_result_that_requires_payment
    [of exampleParser "[''/api/premium'']" ?api ?srv exampleLib exampleConfig exampleHandler] none
  have second: "hook_events (onBeforeHandle exampleParser exampleLib ?srv exampleConfig [''/api/premium''] ?api)
        = map ProcessHTTPRequestCall (pathCandidates exampleParser [''/api/premium''] ?api) \<and>
      map_option result (ctx_x402 (hook_ctx (onBeforeHandle exampleParser exampleLib ?srv exampleConfig
        [''/api/premium''] ?api)))
        = Some (processHTTPRequest ?srv (last (pathCandidates exampleParser [''/api/premium''] ?api))
                  (req_method (ctx_request ?api))) \<and>
      RouteHandlerCall \<in> set (out_events (handleRequest exampleParser exampleLib ?srv exampleConfig
        [''/api/premium''] exampleHandler ?api))"
    by blast
  from first second show ?thesis
    by (simp add: example_api_candidates exampleServer_calls)
qed

text \<open>
  The theorem of C1 at two requests for \<^verbatim>\<open>/api/premium\<close>: a verified upto payment, whose
  tracking call precedes the route handler, and a verified exact payment, whose
  settlement call follows it.
\<close>

theorem phases_of_a_request_witness:
  "TrackUptoPaymentCall (JString ''signed'') uptoRequirements
     \<in> set (preHandler (out_events (handleRequest exampleParser exampleLib
          (exampleServer (PaymentVerified (JString ''signed'') uptoRequirements)) exampleConfig
          [''/api/premium''] exampleHandler
          (exampleCtx ''http://localhost/api/premium'' ''/api/premium'')))) \<and>
   fromHandler (out_events (handleRequest exampleParser exampleLib
          (exampleServer (PaymentVerified (JString ''signed'') exactRequirements)) exampleConfig
          [''/api/premium''] exampleHandler
          (exampleCtx ''http://localhost/api/premium'' ''/api/premium'')))
     = [RouteHandlerCall, ProcessSettlementCall (JString ''signed'') exactRequirements]"
proof -
  let ?ctx = "exampleCtx ''http://localhost/api/premium'' ''/api/premium''"
  let ?upto = "exampleServer (PaymentVerified (JString ''signed'') uptoRequirements)"
  let ?exact = "exampleServer (PaymentVerified (JString ''signed'') exactRequirements)"
  have m: "req_method (ctx_request ?ctx) = ''GET''"
    by (simp add: exampleCtx_def exampleRequest_def)
  have stored: "map_option result (ctx_x402 (hook_ctx (onBeforeHandle exampleParser exampleLib
      (exampleServer (PaymentVerified (JString ''signed'') r)) exampleConfig [''/api/premium''] ?ctx)))
      = Some (PaymentVerified (JString ''signed'') r)" for r
    by (simp add: hook_result example_premium_candidates m exampleServer_calls resultType_def)
  have tracked: "scheme uptoRequirements = ''upto'' \<and>
      upto exampleConfig = Some \<lparr>store = (), autoTrack = None\<rparr> \<and> configuredAutoTrack exampleConfig"
    by (simp add: uptoRequirements_def exampleConfig_def configuredAutoTrack_def)
  from phases_of_a_request
    [of exampleParser exampleLib ?upto exampleConfig "[''/api/premium'']" exampleHandler ?ctx]
    stored [of uptoRequirements] tracked
  obtain called where "preHandler (out_events (handleRequest exampleParser exampleLib ?upto
      exampleConfig [''/api/premium''] exampleHandler ?ctx))
      = map ProcessHTTPRequestCall called
        @ [TrackUptoPaymentCall (JString ''signed'') uptoRequirements]"
    by blast
  then have first: "TrackUptoPaymentCall (JString ''signed'') uptoRequirements
      \<in> set (preHandler (out_events (handleRequest exampleParser exampleLib ?upto
          exampleConfig [''/api/premium''] exampleHandler ?ctx)))"
    by simp
  have settled: "scheme exactRequirements \<noteq> ''upto'' \<and> configuredAutoSettle exampleConfig \<and>
      ctx_x402 (fst (exampleHandler (hook_ctx (onBeforeHandle exampleParser exampleLib ?exact
          exampleConfig [''/api/premium''] ?ctx))))
        = ctx_x402 (hook_ctx (onBeforeHandle exampleParser exampleLib ?exact
          exampleConfig [''/api/premium''] ?ctx))"
    by (simp add: exactRequirements_def exampleConfig_def configuredAutoSettle_def exampleHandler_def)
  from phases_of_a_request
    [of exampleParser exampleLib ?exact exampleConfig "[''/api/premium'']" exampleHandler ?ctx]
    stored [of exactRequirements] settled
  have second: "fromHandler (out_events (handleRequest exampleParser exampleLib ?exact
      exampleConfig [''/api/premium''] exampleHandler ?ctx))
      = [RouteHandlerCall, ProcessSettlementCall (JString ''signed'') exactRequirements]"
    by blast
  from first second show ?thesis by (rule conjI)
qed

lemma onAfterHandle_keeps:
  "set_status (ctx_set (snd (onAfterHandle httpServer config ctx))) = set_status (ctx_set ctx) \<and>
   ctx_x402 (snd (onAfterHandle httpServer config ctx)) = ctx_x402 ctx"
  by (simp add: onAfterHandle_def setHeaders_def
      split: option.splits HTTPProcessResult.splits TrackingResult.splits ProcessSettleResult.splits)

text \<open>
  C4. The result stored in \<^verbatim>\<open>ctx.x402\<close> is the value \<^verbatim>\<open>processHTTPRequest\<close> returned for one
  of the candidates. For a verified payment that is not an upto payment, with settlement
  on, \<^verbatim>\<open>onAfterHandle\<close> calls \<^verbatim>\<open>processSettlement\<close> with the payload and requirements of
  that result and merges exactly the headers that call returned, when it succeeded, into
  the response headers. \<^verbatim>\<open>onAfterHandle\<close> never touches the status or the stored result.
\<close>

theorem verdicts_come_from_the_library:
  "(\<exists>c \<in> set (pathCandidates newURL routePatterns ctx).
      map_option result
        (ctx_x402 (hook_ctx (onBeforeHandle newURL lib httpServer config routePatterns ctx)))
        = Some (processHTTPRequest httpServer c (req_method (ctx_request ctx)))) \<and>
   (\<forall>state p r.
      ctx_x402 handled = Some state \<and> result state = PaymentVerified p r \<and>
      scheme r \<noteq> ''upto'' \<and> configuredAutoSettle config \<longrightarrow>
      onAfterHandle httpServer config handled
        = ([ProcessSettlementCall p r],
           case processSettlement httpServer p r of
             SettleSuccess headers \<Rightarrow> setHeaders handled headers
           | SettleFailure \<Rightarrow> handled)) \<and>
   set_status (ctx_set (snd (onAfterHandle httpServer config handled))) = set_status (ctx_set handled) \<and>
   ctx_x402 (snd (onAfterHandle httpServer config handled)) = ctx_x402 handled"
proof (intro conjI allI impI)
  let ?m = "req_method (ctx_request ctx)"
  let ?cands = "pathCandidates newURL routePatterns ctx"
  have nonempty: "?cands \<noteq> []" by (rule pathCandidates_nonempty)
  from processLoop_from_library [OF nonempty, of httpServer ?m NoPaymentRequired]
  obtain c where "c \<in> set ?cands"
    "snd (processLoop httpServer ?m NoPaymentRequired ?cands) = processHTTPRequest httpServer c ?m"
    by (elim bexE)
  then show "\<exists>c \<in> set ?cands.
      map_option result
        (ctx_x402 (hook_ctx (onBeforeHandle newURL lib httpServer config routePatterns ctx)))
        = Some (processHTTPRequest httpServer c ?m)"
    by (auto simp only: hook_result)
next
  fix state p r
  assume "ctx_x402 handled = Some state \<and> result state = PaymentVerified p r \<and>
      scheme r \<noteq> ''upto'' \<and> configuredAutoSettle config"
  then show "onAfterHandle httpServer config handled
        = ([ProcessSettlementCall p r],
           case processSettlement httpServer p r of
             SettleSuccess headers \<Rightarrow> setHeaders handled headers
           | SettleFailure \<Rightarrow> handled)"
    by (simp add: onAfterHandle_def split: ProcessSettleResult.splits)
next
  show "set_status (ctx_set (snd (onAfterHandle httpServer config handled))) = set_status (ctx_set handled)"
    by (simp add: onAfterHandle_keeps)
  show "ctx_x402 (snd (onAfterHandle httpServer config handled)) = ctx_x402 handled"
    by (simp add: onAfterHandle_keeps)
qed

text \<open>The theorem at a verified exact payment that the example server settles.\<close>

theorem verdicts_come_from_the_library_witness:
  "fst (onAfterHandle (exampleServer NoPaymentRequired) exampleConfig exampleVerifiedCtx)
     = [ProcessSettlementCall (JString ''signed'') exactRequirements] \<and>
   set_headers (ctx_set (snd (onAfterHandle (exampleServer NoPaymentRequired) exampleConfig
                               exampleVerifiedCtx)))
     = Some [''payment-response'' \<mapsto> ''settled'']"
proof -
  let ?state = "\<lparr>result = PaymentVerified (JString ''signed'') exactRequirements, tracking = None\<rparr>"
  have hyp: "ctx_x402 exampleVerifiedCtx = Some ?state \<and>
      result ?state = PaymentVerified (JString ''signed'') exactRequirements \<and>
      scheme exactRequirements \<noteq> ''upto'' \<and> configuredAutoSettle exampleConfig"
    by (simp add: exampleVerifiedCtx_def exactRequirements_def configuredAutoSettle_def
        exampleConfig_def)
  from verdicts_come_from_the_library
    [of exampleParser "[]" exampleVerifiedCtx exampleLib "exampleServer NoPaymentRequired"
      exampleConfig exampleVerifiedCtx] hyp
  have "onAfterHandle (exampleServer NoPaymentRequired) exampleConfig exampleVerifiedCtx
        = ([ProcessSettlementCall (JString ''signed'') exactRequirements],
           case processSettlement (exampleServer NoPaymentRequired) (JString ''signed'') exactRequirements of
             SettleSuccess headers \<Rightarrow> setHeaders exampleVerifiedCtx headers
           | SettleFailure \<Rightarrow> exampleVerifiedCtx)"
    by blast
  then show ?thesis
    by (simp add: exampleServer_def setHeaders_def mergeHeaders_def exampleVerifiedCtx_def
        exampleCtx_def)
qed

text \<open>
  What the hook does on a \<^verbatim>\<open>payment-error\<close> result: the status, the merged headers and
  the returned body are those of the error response; the route handler is skipped when
  that body is neither \<^verbatim>\<open>undefined\<close> nor \<^verbatim>\<open>null\<close>, and runs when it is one of them.
\<close>

lemma payment_error_effects:
  assumes "snd (processLoop httpServer (req_method (ctx_request ctx)) NoPaymentRequired
             (pathCandidates newURL routePatterns ctx)) = PaymentError response"
  shows "set_status (ctx_set (hook_ctx (onBeforeHandle newURL lib httpServer config routePatterns ctx)))
           = Some (resp_status response) \<and>
         set_headers (ctx_set (hook_ctx (onBeforeHandle newURL lib httpServer config routePatterns ctx)))
           = Some (mergeHeaders (set_headers (ctx_set ctx)) (resp_headers response)) \<and>
         hook_return (onBeforeHandle newURL lib httpServer config routePatterns ctx)
           = resp_body response \<and>
         (RouteHandlerCall \<in> set (out_events
              (handleRequest newURL lib httpServer config routePatterns routeHandler ctx))
            \<longleftrightarrow> resp_body response = JUndefined \<or> resp_body response = JNull)"
proof -
  let ?before = "onBeforeHandle newURL lib httpServer config routePatterns ctx"
  obtain calls where loop:
    "processLoop httpServer (req_method (ctx_request ctx)) NoPaymentRequired
       (pathCandidates newURL routePatterns ctx) = (calls, PaymentError response)"
    using assms
    by (cases "processLoop httpServer (req_method (ctx_request ctx)) NoPaymentRequired
       (pathCandidates newURL routePatterns ctx)") simp
  note hook = before_error [OF loop, of lib config]
  have ret: "hook_return ?before = resp_body response"
    by (simp add: hook)
  have clean: "RouteHandlerCall \<notin> set (hook_events ?before)"
    using before_events_clean [of newURL lib httpServer config routePatterns ctx] by simp
  have handler: "RouteHandlerCall \<in> set (out_events
      (handleRequest newURL lib httpServer config routePatterns routeHandler ctx))
      \<longleftrightarrow> resp_body response = JUndefined \<or> resp_body response = JNull"
  proof (cases "resp_body response = JUndefined \<or> resp_body response = JNull")
    case True
    with ret have "hook_return ?before = JUndefined \<or> hook_return ?before = JNull" by simp
    from handleRequest_proceeds [OF this, of routeHandler] True show ?thesis by simp
  next
    case False
    with ret have early: "hook_return ?before \<noteq> JUndefined" "hook_return ?before \<noteq> JNull"
      by simp_all
    from False clean show ?thesis
      by (simp add: handleRequest_early [OF early] early_return_no_settlement [OF early(1)])
  qed
  show ?thesis
    using ret handler by (simp add: hook setHeaders_def setStatus_def)
qed

text \<open>
  C2 at a \<^verbatim>\<open>payment-error\<close> result whose response has no body: the hook returns
  \<^verbatim>\<open>undefined\<close>, so the route handler runs and its content is the response.
\<close>

theorem bodyless_error_reaches_handler:
  "map_option result (ctx_x402 (hook_ctx (onBeforeHandle exampleParser exampleLib
      (exampleServer bodylessError) exampleConfig [''/api/premium'']
      (exampleCtx ''http://localhost/api/premium'' ''/api/premium'')))) = Some bodylessError \<and>
   resultType bodylessError = ''payment-error'' \<and>
   out_events (handleRequest exampleParser exampleLib (exampleServer bodylessError) exampleConfig
      [''/api/premium''] exampleHandler
      (exampleCtx ''http://localhost/api/premium'' ''/api/premium''))
     = [ProcessHTTPRequestCall ''/api/premium'', RouteHandlerCall] \<and>
   out_response (handleRequest exampleParser exampleLib (exampleServer bodylessError) exampleConfig
      [''/api/premium''] exampleHandler
      (exampleCtx ''http://localhost/api/premium'' ''/api/premium''))
     = JString ''premium content''"
proof -
  let ?ctx = "exampleCtx ''http://localhost/api/premium'' ''/api/premium''"
  have loop: "processLoop (exampleServer bodylessError) (req_method (ctx_request ?ctx)) NoPaymentRequired
      (pathCandidates exampleParser [''/api/premium''] ?ctx)
      = ([ProcessHTTPRequestCall ''/api/premium''], bodylessError)"
    by (simp add: example_premium_candidates exampleServer_calls bodylessError_def resultType_def)
  note hook = before_error [OF loop [unfolded bodylessError_def], folded bodylessError_def,
      of exampleLib exampleConfig]
  have ret: "hook_return (onBeforeHandle exampleParser exampleLib (exampleServer bodylessError)
      exampleConfig [''/api/premium''] ?ctx) = JUndefined"
    by (simp add: hook)
  have type: "resultType bodylessError = ''payment-error''"
    by (simp add: bodylessError_def resultType_def)
  have after: "onAfterHandle (exampleServer bodylessError) exampleConfig c
      = ([], c)" if "ctx_x402 c = Some \<lparr>result = bodylessError, tracking = None\<rparr>" for c
    using that by (simp add: onAfterHandle_def bodylessError_def)
  have stored: "ctx_x402 (hook_ctx (onBeforeHandle exampleParser exampleLib (exampleServer bodylessError)
      exampleConfig [''/api/premium''] ?ctx)) = Some \<lparr>result = bodylessError, tracking = None\<rparr>"
    by (simp add: hook setHeaders_def setStatus_def)
  show ?thesis
    by (simp add: handleRequest_def ret Let_def exampleHandler_def after [OF stored] stored type
        hook [THEN arg_cong, of hook_events])
qed

section \<open>Properties of the adapter\<close>

lemma firstAliasValue_first:
  assumes "\<forall>b \<in> set pre. hdrs b = None" and "hdrs a = Some v"
  shows "firstAliasValue hdrs (pre @ a # post) = Some v"
  using assms by (induction pre) simp_all

lemma firstAliasValue_none:
  assumes "\<forall>b \<in> set aliases. hdrs b = None"
  shows "firstAliasValue hdrs aliases = None"
  using assms by (induction aliases) simp_all

text \<open>
  C8. \<^verbatim>\<open>getHeader(name)\<close> returns the value of the header \<open>name\<close> when it is present. When
  it is absent and \<open>name\<close> lowercases to \<^verbatim>\<open>payment-signature\<close>, it returns the value of the
  first configured alias whose header is present, and \<^verbatim>\<open>undefined\<close> when no alias has one.
  When it is absent and \<open>name\<close> lowercases to anything else, it returns \<^verbatim>\<open>undefined\<close>. The
  configured aliases are those of the configuration, and \<^verbatim>\<open>x-payment\<close> alone by default.
\<close>

theorem getHeader_resolution:
  "(\<forall>v. req_headers (ctx_request ctx) name = Some v \<longrightarrow>
        adapterGetHeader config ctx name = Some v) \<and>
   (req_headers (ctx_request ctx) name = None \<and> toLowerCase name = ''payment-signature'' \<longrightarrow>
      (\<forall>pre a post v.
         configuredAliases config = pre @ a # post \<and>
         (\<forall>b \<in> set pre. req_headers (ctx_request ctx) b = None) \<and>
         req_headers (ctx_request ctx) a = Some v \<longrightarrow>
         adapterGetHeader config ctx name = Some v) \<and>
      ((\<forall>b \<in> set (configuredAliases config). req_headers (ctx_request ctx) b = None) \<longrightarrow>
         adapterGetHeader config ctx name = None)) \<and>
   (req_headers (ctx_request ctx) name = None \<and> toLowerCase name \<noteq> ''payment-signature'' \<longrightarrow>
      adapterGetHeader config ctx name = None) \<and>
   (paymentHeaderAliases config = None \<longrightarrow> configuredAliases config = [''x-payment'']) \<and>
   (\<forall>aliases. paymentHeaderAliases config = Some aliases \<longrightarrow> configuredAliases config = aliases)"
proof (intro conjI allI impI)
  fix v
  assume "req_headers (ctx_request ctx) name = Some v"
  then show "adapterGetHeader config ctx name = Some v"
    by (simp add: adapterGetHeader_def getHeader_def)
next
  fix pre a post v
  assume absent: "req_headers (ctx_request ctx) name = None \<and> toLowerCase name = ''payment-signature''"
    and first: "configuredAliases config = pre @ a # post \<and>
         (\<forall>b \<in> set pre. req_headers (ctx_request ctx) b = None) \<and>
         req_headers (ctx_request ctx) a = Some v"
  from first have "firstAliasValue (req_headers (ctx_request ctx)) (configuredAliases config) = Some v"
    using firstAliasValue_first [of pre "req_headers (ctx_request ctx)" a v post] by simp
  with absent show "adapterGetHeader config ctx name = Some v"
    by (simp add: adapterGetHeader_def getHeader_def)
next
  assume absent: "req_headers (ctx_request ctx) name = None \<and> toLowerCase name = ''payment-signature''"
    and none: "\<forall>b \<in> set (configuredAliases config). req_headers (ctx_request ctx) b = None"
  from none have "firstAliasValue (req_headers (ctx_request ctx)) (configuredAliases config) = None"
    by (rule firstAliasValue_none)
  with absent show "adapterGetHeader config ctx name = None"
    by (simp add: adapterGetHeader_def getHeader_def)
next
  assume "req_headers (ctx_request ctx) name = None \<and> toLowerCase name \<noteq> ''payment-signature''"
  then show "adapterGetHeader config ctx name = None"
    by (simp add: adapterGetHeader_def getHeader_def)
next
  assume "paymentHeaderAliases config = None"
  then show "configuredAliases config = [''x-payment'']"
    by (simp add: configuredAliases_def DEFAULT_PAYMENT_HEADER_ALIASES_def)
next
  fix aliases
  assume "paymentHeaderAliases config = Some aliases"
  then show "configuredAliases config = aliases"
    by (simp add: configuredAliases_def)
qed

text \<open>
  The theorem at a request that carries \<^verbatim>\<open>x-payment\<close>, with the default aliases, and at a
  request without headers.
\<close>

theorem getHeader_resolution_witness:
  "adapterGetHeader exampleConfig exampleHeaderCtx ''x-payment'' = Some ''signed'' \<and>
   adapterGetHeader exampleConfig exampleHeaderCtx ''PAYMENT-SIGNATURE'' = Some ''signed'' \<and>
   adapterGetHeader exampleConfig exampleHeaderCtx ''accept'' = None \<and>
   adapterGetHeader exampleConfig (exampleCtx ''http://localhost/api'' ''/api'') ''payment-signature'' = None"
proof -
  let ?hdrs = "req_headers (ctx_request exampleHeaderCtx)"
  have hdrs: "?hdrs ''x-payment'' = Some ''signed''" "?hdrs ''PAYMENT-SIGNATURE'' = None"
    "?hdrs ''accept'' = None"
    by (simp_all add: exampleHeaderCtx_def exampleRequest_def)
  have lower: "toLowerCase ''PAYMENT-SIGNATURE'' = ''payment-signature''"
    "toLowerCase ''accept'' \<noteq> ''payment-signature''"
    "toLowerCase ''payment-signature'' = ''payment-signature''"
    by (simp_all add: toLowerCase_def lowerChar_def)
  have unset: "paymentHeaderAliases exampleConfig = None"
    by (simp add: exampleConfig_def)
  note at_header = getHeader_resolution [of exampleHeaderCtx _ exampleConfig]
  from at_header [of "''x-payment''"] unset have aliases: "configuredAliases exampleConfig = [''x-payment'']"
    by blast
  from at_header [of "''x-payment''"] hdrs(1)
  have direct: "adapterGetHeader exampleConfig exampleHeaderCtx ''x-payment'' = Some ''signed''"
    by blast
  have "configuredAliases exampleConfig = [] @ ''x-payment'' # [] \<and>
      (\<forall>b \<in> set []. ?hdrs b = None) \<and> ?hdrs ''x-payment'' = Some ''signed''"
    by (simp add: aliases hdrs)
  with at_header [of "''PAYMENT-SIGNATURE''"] hdrs(2) lower(1)
  have through_alias: "adapterGetHeader exampleConfig exampleHeaderCtx ''PAYMENT-SIGNATURE'' = Some ''signed''"
    by blast
  from at_header [of "''accept''"] hdrs(3) lower(2)
  have other: "adapterGetHeader exampleConfig exampleHeaderCtx ''accept'' = None"
    by blast
  let ?plain = "exampleCtx ''http://localhost/api'' ''/api''"
  have "req_headers (ctx_request ?plain) ''payment-signature'' = None"
    "\<forall>b \<in> set (configuredAliases exampleConfig). req_headers (ctx_request ?plain) b = None"
    by (simp_all add: exampleCtx_def exampleRequest_def)
  with getHeader_resolution [of ?plain "''payment-signature''" exampleConfig] lower(3)
  have absent: "adapterGetHeader exampleConfig ?plain ''payment-signature'' = None"
    by blast
  from direct through_alias other absent show ?thesis by simp
qed

text \<open>
  Query parameters. For a key that \<^verbatim>\<open>Object.prototype\<close> has no property for, in a query
  string without the key \<^verbatim>\<open>__proto__\<close>, the adapter reports what it is meant to report.
\<close>

lemma addQueryParam_other:
  "k \<noteq> key \<Longrightarrow> getProperty (addQueryParam queryParams k v) key = getProperty queryParams key"
  by (simp add: addQueryParam_def getProperty_def Let_def split: jsval.splits)

lemma addQueryParam_same:
  assumes "inheritedProperty key = JUndefined"
    and "getProperty queryParams key = reportedValue vs"
  shows "getProperty (addQueryParam queryParams key v) key = reportedValue (vs @ [v])"
proof (cases vs)
  case Nil
  with assms(2) show ?thesis
    by (simp add: addQueryParam_def getProperty_def reportedValue_def)
next
  case (Cons a rest)
  show ?thesis
  proof (cases rest)
    case Nil
    with Cons assms(2) show ?thesis
      by (simp add: addQueryParam_def getProperty_def reportedValue_def)
  next
    case (Cons b more)
    with \<open>vs = a # rest\<close> assms(2) show ?thesis
      by (cases more) (simp_all add: addQueryParam_def getProperty_def reportedValue_def)
  qed
qed

lemma queryParamsLoop_reports:
  assumes "inheritedProperty key = JUndefined"
    and "''__proto__'' \<notin> fst ` set entries"
    and "getProperty queryParams key = reportedValue vs"
  shows "\<exists>q. queryParamsLoop queryParams entries = Some q \<and>
             getProperty q key = reportedValue (vs @ queryValues key entries)"
  using assms(2,3)
proof (induction entries arbitrary: queryParams vs)
  case Nil
  then show ?case by (simp add: queryValues_def)
next
  case (Cons e entries)
  obtain k v where e: "e = (k, v)" by (cases e)
  from Cons.prems(1) e have k: "k \<noteq> ''__proto__''" and rest: "''__proto__'' \<notin> fst ` set entries"
    by auto
  show ?case
  proof (cases "k = key")
    case True
    have "getProperty (addQueryParam queryParams key v) key = reportedValue (vs @ [v])"
      using assms(1) Cons.prems(2) by (rule addQueryParam_same)
    from Cons.IH [OF rest this] True e k show ?thesis
      by (simp add: queryValues_def)
  next
    case False
    then have "getProperty (addQueryParam queryParams k v) key = reportedValue vs"
      using Cons.prems(2) by (simp add: addQueryParam_other)
    from Cons.IH [OF rest this] False e k show ?thesis
      by (simp add: queryValues_def)
  qed
qed

lemma getQueryParam_reports:
  assumes "inheritedProperty name = JUndefined"
    and "''__proto__'' \<notin> fst ` set (searchParams (resolveUrl newURL (ctx_request ctx)))"
  shows "getQueryParam newURL ctx name
           = Some (reportedValue (queryValues name (searchParams (resolveUrl newURL (ctx_request ctx)))))"
proof -
  have "getProperty Map.empty name = reportedValue []"
    using assms(1) by (simp add: getProperty_def reportedValue_def)
  from queryParamsLoop_reports [OF assms(1) assms(2) this]
  show ?thesis
    by (auto simp: getQueryParam_def getQueryParams_def)
qed

lemma example_query_reported:
  "getQueryParam exampleParser (exampleCtx ''http://localhost/search?tag=a&q=x&tag=b'' ''/search'') ''tag''
     = Some (JArray [JString ''a'', JString ''b'']) \<and>
   getQueryParam exampleParser (exampleCtx ''http://localhost/search?tag=a&q=x&tag=b'' ''/search'') ''q''
     = Some (JString ''x'')"
  by (simp add: getQueryParam_def getQueryParams_def resolveUrl_def startsWith_def example_defs
      addQueryParam_def getProperty_def inheritedProperty_def objectPrototypeFunctions_def)

text \<open>
  C6 at the query string \<^verbatim>\<open>?toString=1\<close>. The key occurs once, with the value \<^verbatim>\<open>1\<close>, but
  \<^verbatim>\<open>queryParams["toString"]\<close> is the inherited function before the loop assigns it, so the
  adapter reports the array of that function and the string.
\<close>

theorem inherited_name_not_reported:
  "queryValues ''toString''
     (searchParams (resolveUrl exampleParser
        (ctx_request (exampleCtx ''http://localhost/search?toString=1'' ''/search'')))) = [''1''] \<and>
   getQueryParam exampleParser (exampleCtx ''http://localhost/search?toString=1'' ''/search'') ''toString''
     = Some (JArray [JFunction ''toString'', JString ''1''])"
  by (simp add: getQueryParam_def getQueryParams_def resolveUrl_def startsWith_def example_defs
      addQueryParam_def getProperty_def inheritedProperty_def objectPrototypeFunctions_def
      queryValues_def)

section \<open>Properties of the Starknet client scheme\<close>

lemma typeof_object:
  "typeof v = ''object'' \<and> v \<noteq> JNull \<and> \<not> isArray v
     \<longleftrightarrow> (\<exists>fields. v = JObject fields) \<or> (\<exists>b. v = JBuiltin b)"
  by (cases v) (simp_all add: typeof_def isArray_def)

lemma createPaymentPayload_built:
  assumes "validateNetwork lib (network requirements) = Inr n"
    and "buildPaymentPayload lib (account this) version requirements (paymasterOptions lib this n)
           = Inr p"
  shows "createPaymentPayload lib this version requirements =
     (if (\<exists>fields. getProperty p ''typedData'' = JObject fields) \<or>
         (\<exists>b. getProperty p ''typedData'' = JBuiltin b)
      then Inr \<lparr>x402Version = version,
                payload = getProperty p ''payload'',
                typedData = getProperty p ''typedData'',
                paymasterEndpoint =
                  (if getProperty p ''paymasterEndpoint'' = JNull \<or>
                      getProperty p ''paymasterEndpoint'' = JUndefined
                   then JString (opt_endpoint (paymasterOptions lib this n))
                   else getProperty p ''paymasterEndpoint'')\<rparr>
      else Inl (Error missingTypedData))"
proof (cases "(\<exists>fields. getProperty p ''typedData'' = JObject fields) \<or>
         (\<exists>b. getProperty p ''typedData'' = JBuiltin b)")
  case True
  then have "typeof (getProperty p ''typedData'') = ''object'' \<and>
      getProperty p ''typedData'' \<noteq> JNull \<and> \<not> isArray (getProperty p ''typedData'')"
    using typeof_object [of "getProperty p ''typedData''"] by blast
  with True show ?thesis
    by (simp add: createPaymentPayload_def assms assertStarknetTypedData_def Let_def)
next
  case False
  then have "\<not> (typeof (getProperty p ''typedData'') = ''object'' \<and>
      getProperty p ''typedData'' \<noteq> JNull \<and> \<not> isArray (getProperty p ''typedData''))"
    using typeof_object [of "getProperty p ''typedData''"] by blast
  with False show ?thesis
    by (simp add: createPaymentPayload_def assms assertStarknetTypedData_def Let_def)
qed

text \<open>
  C5. A payload that \<^verbatim>\<open>createPaymentPayload\<close> returns carries the \<^verbatim>\<open>typedData\<close> of the payload
  the chain library built, and that is an object (not \<^verbatim>\<open>null\<close>, not an array). The method
  throws the error with the message \<^verbatim>\<open>Starknet payment payload missing typedData (required).\<close>
  exactly when the chain library built a payload whose \<^verbatim>\<open>typedData\<close> is not such an object.
\<close>

theorem typedData_required:
  "(\<forall>out. createPaymentPayload lib this version requirements = Inr out \<longrightarrow>
      (\<exists>n p. validateNetwork lib (network requirements) = Inr n \<and>
             buildPaymentPayload lib (account this) version requirements (paymasterOptions lib this n)
               = Inr p \<and>
             typedData out = getProperty p ''typedData'' \<and>
             ((\<exists>fields. typedData out = JObject fields) \<or> (\<exists>b. typedData out = JBuiltin b)))) \<and>
   (createPaymentPayload lib this version requirements = Inl (Error missingTypedData) \<longleftrightarrow>
      (\<exists>n p. validateNetwork lib (network requirements) = Inr n \<and>
             buildPaymentPayload lib (account this) version requirements (paymasterOptions lib this n)
               = Inr p \<and>
             \<not> ((\<exists>fields. getProperty p ''typedData'' = JObject fields) \<or>
                (\<exists>b. getProperty p ''typedData'' = JBuiltin b))))"
proof (cases "validateNetwork lib (network requirements)")
  case (Inl e)
  then show ?thesis by (simp add: createPaymentPayload_def)
next
  case (Inr n)
  show ?thesis
  proof (cases "buildPaymentPayload lib (account this) version requirements (paymasterOptions lib this n)")
    case (Inl e)
    with Inr show ?thesis by (simp add: createPaymentPayload_def)
  next
    case built: (Inr p)
    show ?thesis
      by (auto simp: createPaymentPayload_built [OF Inr built] Inr built)
  qed
qed

lemmas starknet_example_defs =
  exampleStarknetLib_def exampleScheme_def starknetRequirements_def

text \<open>
  The theorem at a library whose payload carries an object, an array, and no typed data.
\<close>

theorem typedData_required_witness:
  "(\<exists>out. createPaymentPayload (exampleStarknetLib (JObject [(''primaryType'', JString ''Transfer'')]))
             (exampleScheme None) 2 starknetRequirements = Inr out \<and>
          typedData out = JObject [(''primaryType'', JString ''Transfer'')]) \<and>
   createPaymentPayload (exampleStarknetLib (JArray [])) (exampleScheme None) 2 starknetRequirements
     = Inl (Error missingTypedData) \<and>
   createPaymentPayload (exampleStarknetLib JUndefined) (exampleScheme None) 2 starknetRequirements
     = Inl (Error missingTypedData)"
proof -
  let ?td = "JObject [(''primaryType'', JString ''Transfer'')]"
  let ?client = "exampleScheme None :: (unit, string) ExactStarknetClientScheme"
  have valid: "validateNetwork (exampleStarknetLib td) (network starknetRequirements)
      = Inr ''starknet:sepolia''" for td
    by (simp add: starknet_example_defs)
  have built: "buildPaymentPayload (exampleStarknetLib td) (account ?client) 2 starknetRequirements
      (paymasterOptions (exampleStarknetLib td) ?client ''starknet:sepolia'')
      = Inr [''x402Version'' \<mapsto> JNumber 2, ''payload'' \<mapsto> JObject [(''signature'', JArray [])],
             ''typedData'' \<mapsto> td]" for td
    by (simp add: starknet_example_defs)
  have field: "getProperty [''x402Version'' \<mapsto> JNumber 2,
      ''payload'' \<mapsto> JObject [(''signature'', JArray [])], ''typedData'' \<mapsto> td] ''typedData'' = td" for td
    by (simp add: getProperty_def)
  obtain out where out: "createPaymentPayload (exampleStarknetLib ?td) ?client 2 starknetRequirements = Inr out"
    by (simp add: createPaymentPayload_built [OF valid built] field)
  with typedData_required [of "exampleStarknetLib ?td" ?client 2 starknetRequirements]
    valid [of ?td] built [of ?td] field [of ?td]
  have "typedData out = ?td" by auto
  with out have first: "\<exists>out. createPaymentPayload (exampleStarknetLib ?td) ?client 2 starknetRequirements
      = Inr out \<and> typedData out = ?td"
    by blast
  have second: "createPaymentPayload (exampleStarknetLib (JArray [])) ?client 2 starknetRequirements
      = Inl (Error missingTypedData)"
    using typedData_required [of "exampleStarknetLib (JArray [])" ?client 2 starknetRequirements]
      valid [of "JArray []"] built [of "JArray []"] field [of "JArray []"]
    by auto
  have third: "createPaymentPayload (exampleStarknetLib JUndefined) ?client 2 starknetRequirements
      = Inl (Error missingTypedData)"
    using typedData_required [of "exampleStarknetLib JUndefined" ?client 2 starknetRequirements]
      valid [of JUndefined] built [of JUndefined] field [of JUndefined]
    by auto
  from first second third show ?thesis by blast
qed

text \<open>
  C9. For every network, \<^verbatim>\<open>resolvePaymasterEndpoint\<close> returns the override when it is a
  string; the entry of the network when the override is a map that has a non-empty entry
  for it; and the entry of \<^verbatim>\<open>DEFAULT_PAYMASTER_ENDPOINTS\<close> for the network otherwise. The
  endpoint \<^verbatim>\<open>createPaymentPayload\<close> passes on is the one resolved from the scheme's override.
\<close>

theorem paymaster_endpoint_resolution:
  "resolvePaymasterEndpoint (DEFAULT_PAYMASTER_ENDPOINTS lib) n (Some (AllNetworks s)) = s \<and>
   (\<forall>m e. m n = Some e \<and> e \<noteq> [] \<longrightarrow>
      resolvePaymasterEndpoint (DEFAULT_PAYMASTER_ENDPOINTS lib) n (Some (PerNetwork m)) = e) \<and>
   (\<forall>m. m n = None \<or> m n = Some [] \<longrightarrow>
      resolvePaymasterEndpoint (DEFAULT_PAYMASTER_ENDPOINTS lib) n (Some (PerNetwork m))
        = DEFAULT_PAYMASTER_ENDPOINTS lib n) \<and>
   resolvePaymasterEndpoint (DEFAULT_PAYMASTER_ENDPOINTS lib) n None = DEFAULT_PAYMASTER_ENDPOINTS lib n \<and>
   opt_endpoint (paymasterOptions lib this n)
     = resolvePaymasterEndpoint (DEFAULT_PAYMASTER_ENDPOINTS lib) n (cfg_paymasterEndpoint this)"
  by (auto simp: resolvePaymasterEndpoint_def paymasterOptions_def Let_def)

text \<open>
  The theorem on the network \<^verbatim>\<open>starknet:sepolia\<close>, at a map with an entry for it, a map
  without one and a map with an empty one.
\<close>

theorem paymaster_endpoint_resolution_witness:
  "resolvePaymasterEndpoint (DEFAULT_PAYMASTER_ENDPOINTS (exampleStarknetLib JNull)) ''starknet:sepolia''
     (Some (PerNetwork [''starknet:sepolia'' \<mapsto> ''https://paymaster.example'']))
     = ''https://paymaster.example'' \<and>
   resolvePaymasterEndpoint (DEFAULT_PAYMASTER_ENDPOINTS (exampleStarknetLib JNull)) ''starknet:sepolia''
     (Some (PerNetwork [''starknet:mainnet'' \<mapsto> ''https://paymaster.example'']))
     = ''https://sepolia.paymaster.avnu.fi'' \<and>
   resolvePaymasterEndpoint (DEFAULT_PAYMASTER_ENDPOINTS (exampleStarknetLib JNull)) ''starknet:sepolia''
     (Some (PerNetwork [''starknet:sepolia'' \<mapsto> '''']))
     = ''https://sepolia.paymaster.avnu.fi''"
proof -
  let ?lib = "exampleStarknetLib JNull"
  note at_sepolia = paymaster_endpoint_resolution
    [of ?lib "''starknet:sepolia''" _ "exampleScheme None"]
  have "[''starknet:sepolia'' \<mapsto> ''https://paymaster.example''] ''starknet:sepolia''
      = Some ''https://paymaster.example'' \<and> ''https://paymaster.example'' \<noteq> []"
    by simp
  with at_sepolia have present:
    "resolvePaymasterEndpoint (DEFAULT_PAYMASTER_ENDPOINTS ?lib) ''starknet:sepolia''
       (Some (PerNetwork [''starknet:sepolia'' \<mapsto> ''https://paymaster.example'']))
     = ''https://paymaster.example''"
    by blast
  have "[''starknet:mainnet'' \<mapsto> ''https://paymaster.example''] ''starknet:sepolia'' = None \<or>
      [''starknet:mainnet'' \<mapsto> ''https://paymaster.example''] ''starknet:sepolia'' = Some []"
    by simp
  with at_sepolia have missing:
    "resolvePaymasterEndpoint (DEFAULT_PAYMASTER_ENDPOINTS ?lib) ''starknet:sepolia''
       (Some (PerNetwork [''starknet:mainnet'' \<mapsto> ''https://paymaster.example'']))
     = DEFAULT_PAYMASTER_ENDPOINTS ?lib ''starknet:sepolia''"
    by blast
  have "[''starknet:sepolia'' \<mapsto> ''''] ''starknet:sepolia'' = None \<or>
      [''starknet:sepolia'' \<mapsto> ''''] ''starknet:sepolia'' = Some []"
    by simp
  with at_sepolia have blank:
    "resolvePaymasterEndpoint (DEFAULT_PAYMASTER_ENDPOINTS ?lib) ''starknet:sepolia''
       (Some (PerNetwork [''starknet:sepolia'' \<mapsto> '''']))
     = DEFAULT_PAYMASTER_ENDPOINTS ?lib ''starknet:sepolia''"
    by blast
  have "DEFAULT_PAYMASTER_ENDPOINTS ?lib ''starknet:sepolia'' = ''https://sepolia.paymaster.avnu.fi''"
    by (simp add: exampleStarknetLib_def)
  with present missing blank show ?thesis by simp
qed

end
